theory Spec2Isabelle
  imports Main
begin

section \<open>Python strings\<close>

text \<open>
  A Python \<open>str\<close> is a sequence of Unicode code points, so a string is modelled as the list
  of its code points. ASCII literals of the source are written through \<open>ascii\<close>; the few
  characters of the source outside ASCII are given by their code points.
\<close>

type_synonym pystr = "nat list"

definition ascii :: "string \<Rightarrow> pystr" where
  "ascii s = map of_char s"

text \<open>
  \<open>str.isalnum\<close> on one character: true for the code points whose Unicode general category
  is a letter category, or that have a decimal, digit or numeric value. The table lists
  these code points as inclusive ranges, in increasing order and in eight parts (Unicode
  14.0.0, the database of CPython 3.11). The first three ranges are the ASCII digits and
  letters.
\<close>

definition alnum_ranges_0 :: "(nat \<times> nat) list" where
  "alnum_ranges_0 =
     [(48, 57), (65, 90), (97, 122), (170, 170), (178, 179), (181, 181), (185, 186), (188, 190),
      (192, 214), (216, 246), (248, 705), (710, 721), (736, 740), (748, 748), (750, 750), (880,
      884), (886, 887), (890, 893), (895, 895), (902, 902), (904, 906), (908, 908), (910, 929),
      (931, 1013), (1015, 1153), (1162, 1327), (1329, 1366), (1369, 1369), (1376, 1416), (1488,
      1514), (1519, 1522), (1568, 1610), (1632, 1641), (1646, 1647), (1649, 1747), (1749, 1749),
      (1765, 1766), (1774, 1788), (1791, 1791), (1808, 1808), (1810, 1839), (1869, 1957), (1969,
      1969), (1984, 2026), (2036, 2037), (2042, 2042), (2048, 2069), (2074, 2074), (2084, 2084),
      (2088, 2088), (2112, 2136), (2144, 2154), (2160, 2183), (2185, 2190), (2208, 2249), (2308,
      2361), (2365, 2365), (2384, 2384), (2392, 2401), (2406, 2415), (2417, 2432), (2437, 2444),
      (2447, 2448), (2451, 2472), (2474, 2480), (2482, 2482), (2486, 2489), (2493, 2493), (2510,
      2510), (2524, 2525), (2527, 2529), (2534, 2545), (2548, 2553), (2556, 2556), (2565, 2570),
      (2575, 2576), (2579, 2600), (2602, 2608), (2610, 2611), (2613, 2614), (2616, 2617), (2649,
      2652), (2654, 2654), (2662, 2671), (2674, 2676), (2693, 2701), (2703, 2705), (2707, 2728),
      (2730, 2736), (2738, 2739), (2741, 2745), (2749, 2749)]"

definition alnum_ranges_1 :: "(nat \<times> nat) list" where
  "alnum_ranges_1 =
     [(2768, 2768), (2784, 2785), (2790, 2799), (2809, 2809), (2821, 2828), (2831, 2832), (2835,
      2856), (2858, 2864), (2866, 2867), (2869, 2873), (2877, 2877), (2908, 2909), (2911, 2913),
      (2918, 2927), (2929, 2935), (2947, 2947), (2949, 2954), (2958, 2960), (2962, 2965), (2969,
      2970), (2972, 2972), (2974, 2975), (2979, 2980), (2984, 2986), (2990, 3001), (3024, 3024),
      (3046, 3058), (3077, 3084), (3086, 3088), (3090, 3112), (3114, 3129), (3133, 3133), (3160,
      3162), (3165, 3165), (3168, 3169), (3174, 3183), (3192, 3198), (3200, 3200), (3205, 3212),
      (3214, 3216), (3218, 3240), (3242, 3251), (3253, 3257), (3261, 3261), (3293, 3294), (3296,
      3297), (3302, 3311), (3313, 3314), (3332, 3340), (3342, 3344), (3346, 3386), (3389, 3389),
      (3406, 3406), (3412, 3414), (3416, 3425), (3430, 3448), (3450, 3455), (3461, 3478), (3482,
      3505), (3507, 3515), (3517, 3517), (3520, 3526), (3558, 3567), (3585, 3632), (3634, 3635),
      (3648, 3654), (3664, 3673), (3713, 3714), (3716, 3716), (3718, 3722), (3724, 3747), (3749,
      3749), (3751, 3760), (3762, 3763), (3773, 3773), (3776, 3780), (3782, 3782), (3792, 3801),
      (3804, 3807), (3840, 3840), (3872, 3891), (3904, 3911), (3913, 3948), (3976, 3980), (4096,
      4138), (4159, 4169), (4176, 4181), (4186, 4189), (4193, 4193), (4197, 4198), (4206, 4208),
      (4213, 4225)]"

definition alnum_ranges_2 :: "(nat \<times> nat) list" where
  "alnum_ranges_2 =
     [(4238, 4238), (4240, 4249), (4256, 4293), (4295, 4295), (4301, 4301), (4304, 4346), (4348,
      4680), (4682, 4685), (4688, 4694), (4696, 4696), (4698, 4701), (4704, 4744), (4746, 4749),
      (4752, 4784), (4786, 4789), (4792, 4798), (4800, 4800), (4802, 4805), (4808, 4822), (4824,
      4880), (4882, 4885), (4888, 4954), (4969, 4988), (4992, 5007), (5024, 5109), (5112, 5117),
      (5121, 5740), (5743, 5759), (5761, 5786), (5792, 5866), (5870, 5880), (5888, 5905), (5919,
      5937), (5952, 5969), (5984, 5996), (5998, 6000), (6016, 6067), (6103, 6103), (6108, 6108),
      (6112, 6121), (6128, 6137), (6160, 6169), (6176, 6264), (6272, 6276), (6279, 6312), (6314,
      6314), (6320, 6389), (6400, 6430), (6470, 6509), (6512, 6516), (6528, 6571), (6576, 6601),
      (6608, 6618), (6656, 6678), (6688, 6740), (6784, 6793), (6800, 6809), (6823, 6823), (6917,
      6963), (6981, 6988), (6992, 7001), (7043, 7072), (7086, 7141), (7168, 7203), (7232, 7241),
      (7245, 7293), (7296, 7304), (7312, 7354), (7357, 7359), (7401, 7404), (7406, 7411), (7413,
      7414), (7418, 7418), (7424, 7615), (7680, 7957), (7960, 7965), (7968, 8005), (8008, 8013),
      (8016, 8023), (8025, 8025), (8027, 8027), (8029, 8029), (8031, 8061), (8064, 8116), (8118,
      8124), (8126, 8126), (8130, 8132), (8134, 8140), (8144, 8147), (8150, 8155), (8160, 8172),
      (8178, 8180)]"

definition alnum_ranges_3 :: "(nat \<times> nat) list" where
  "alnum_ranges_3 =
     [(8182, 8188), (8304, 8305), (8308, 8313), (8319, 8329), (8336, 8348), (8450, 8450), (8455,
      8455), (8458, 8467), (8469, 8469), (8473, 8477), (8484, 8484), (8486, 8486), (8488, 8488),
      (8490, 8493), (8495, 8505), (8508, 8511), (8517, 8521), (8526, 8526), (8528, 8585), (9312,
      9371), (9450, 9471), (10102, 10131), (11264, 11492), (11499, 11502), (11506, 11507), (11517,
      11517), (11520, 11557), (11559, 11559), (11565, 11565), (11568, 11623), (11631, 11631),
      (11648, 11670), (11680, 11686), (11688, 11694), (11696, 11702), (11704, 11710), (11712,
      11718), (11720, 11726), (11728, 11734), (11736, 11742), (11823, 11823), (12293, 12295),
      (12321, 12329), (12337, 12341), (12344, 12348), (12353, 12438), (12445, 12447), (12449,
      12538), (12540, 12543), (12549, 12591), (12593, 12686), (12690, 12693), (12704, 12735),
      (12784, 12799), (12832, 12841), (12872, 12879), (12881, 12895), (12928, 12937), (12977,
      12991), (13312, 19903), (19968, 42124), (42192, 42237), (42240, 42508), (42512, 42539),
      (42560, 42606), (42623, 42653), (42656, 42735), (42775, 42783), (42786, 42888), (42891,
      42954), (42960, 42961), (42963, 42963), (42965, 42969), (42994, 43009), (43011, 43013),
      (43015, 43018), (43020, 43042), (43056, 43061), (43072, 43123), (43138, 43187), (43216,
      43225), (43250, 43255), (43259, 43259), (43261, 43262), (43264, 43301), (43312, 43334),
      (43360, 43388), (43396, 43442), (43471, 43481), (43488, 43492), (43494, 43518), (43520,
      43560)]"

definition alnum_ranges_4 :: "(nat \<times> nat) list" where
  "alnum_ranges_4 =
     [(43584, 43586), (43588, 43595), (43600, 43609), (43616, 43638), (43642, 43642), (43646,
      43695), (43697, 43697), (43701, 43702), (43705, 43709), (43712, 43712), (43714, 43714),
      (43739, 43741), (43744, 43754), (43762, 43764), (43777, 43782), (43785, 43790), (43793,
      43798), (43808, 43814), (43816, 43822), (43824, 43866), (43868, 43881), (43888, 44002),
      (44016, 44025), (44032, 55203), (55216, 55238), (55243, 55291), (63744, 64109), (64112,
      64217), (64256, 64262), (64275, 64279), (64285, 64285), (64287, 64296), (64298, 64310),
      (64312, 64316), (64318, 64318), (64320, 64321), (64323, 64324), (64326, 64433), (64467,
      64829), (64848, 64911), (64914, 64967), (65008, 65019), (65136, 65140), (65142, 65276),
      (65296, 65305), (65313, 65338), (65345, 65370), (65382, 65470), (65474, 65479), (65482,
      65487), (65490, 65495), (65498, 65500), (65536, 65547), (65549, 65574), (65576, 65594),
      (65596, 65597), (65599, 65613), (65616, 65629), (65664, 65786), (65799, 65843), (65856,
      65912), (65930, 65931), (66176, 66204), (66208, 66256), (66273, 66299), (66304, 66339),
      (66349, 66378), (66384, 66421), (66432, 66461), (66464, 66499), (66504, 66511), (66513,
      66517), (66560, 66717), (66720, 66729), (66736, 66771), (66776, 66811), (66816, 66855),
      (66864, 66915), (66928, 66938), (66940, 66954), (66956, 66962), (66964, 66965), (66967,
      66977), (66979, 66993), (66995, 67001), (67003, 67004), (67072, 67382), (67392, 67413),
      (67424, 67431), (67456, 67461), (67463, 67504), (67506, 67514)]"

definition alnum_ranges_5 :: "(nat \<times> nat) list" where
  "alnum_ranges_5 =
     [(67584, 67589), (67592, 67592), (67594, 67637), (67639, 67640), (67644, 67644), (67647,
      67669), (67672, 67702), (67705, 67742), (67751, 67759), (67808, 67826), (67828, 67829),
      (67835, 67867), (67872, 67897), (67968, 68023), (68028, 68047), (68050, 68096), (68112,
      68115), (68117, 68119), (68121, 68149), (68160, 68168), (68192, 68222), (68224, 68255),
      (68288, 68295), (68297, 68324), (68331, 68335), (68352, 68405), (68416, 68437), (68440,
      68466), (68472, 68497), (68521, 68527), (68608, 68680), (68736, 68786), (68800, 68850),
      (68858, 68899), (68912, 68921), (69216, 69246), (69248, 69289), (69296, 69297), (69376,
      69415), (69424, 69445), (69457, 69460), (69488, 69505), (69552, 69579), (69600, 69622),
      (69635, 69687), (69714, 69743), (69745, 69746), (69749, 69749), (69763, 69807), (69840,
      69864), (69872, 69881), (69891, 69926), (69942, 69951), (69956, 69956), (69959, 69959),
      (69968, 70002), (70006, 70006), (70019, 70066), (70081, 70084), (70096, 70106), (70108,
      70108), (70113, 70132), (70144, 70161), (70163, 70187), (70272, 70278), (70280, 70280),
      (70282, 70285), (70287, 70301), (70303, 70312), (70320, 70366), (70384, 70393), (70405,
      70412), (70415, 70416), (70419, 70440), (70442, 70448), (70450, 70451), (70453, 70457),
      (70461, 70461), (70480, 70480), (70493, 70497), (70656, 70708), (70727, 70730), (70736,
      70745), (70751, 70753), (70784, 70831), (70852, 70853), (70855, 70855), (70864, 70873),
      (71040, 71086), (71128, 71131), (71168, 71215), (71236, 71236)]"

definition alnum_ranges_6 :: "(nat \<times> nat) list" where
  "alnum_ranges_6 =
     [(71248, 71257), (71296, 71338), (71352, 71352), (71360, 71369), (71424, 71450), (71472,
      71483), (71488, 71494), (71680, 71723), (71840, 71922), (71935, 71942), (71945, 71945),
      (71948, 71955), (71957, 71958), (71960, 71983), (71999, 71999), (72001, 72001), (72016,
      72025), (72096, 72103), (72106, 72144), (72161, 72161), (72163, 72163), (72192, 72192),
      (72203, 72242), (72250, 72250), (72272, 72272), (72284, 72329), (72349, 72349), (72368,
      72440), (72704, 72712), (72714, 72750), (72768, 72768), (72784, 72812), (72818, 72847),
      (72960, 72966), (72968, 72969), (72971, 73008), (73030, 73030), (73040, 73049), (73056,
      73061), (73063, 73064), (73066, 73097), (73112, 73112), (73120, 73129), (73440, 73458),
      (73648, 73648), (73664, 73684), (73728, 74649), (74752, 74862), (74880, 75075), (77712,
      77808), (77824, 78894), (82944, 83526), (92160, 92728), (92736, 92766), (92768, 92777),
      (92784, 92862), (92864, 92873), (92880, 92909), (92928, 92975), (92992, 92995), (93008,
      93017), (93019, 93025), (93027, 93047), (93053, 93071), (93760, 93846), (93952, 94026),
      (94032, 94032), (94099, 94111), (94176, 94177), (94179, 94179), (94208, 100343), (100352,
      101589), (101632, 101640), (110576, 110579), (110581, 110587), (110589, 110590), (110592,
      110882), (110928, 110930), (110948, 110951), (110960, 111355), (113664, 113770), (113776,
      113788), (113792, 113800), (113808, 113817), (119520, 119539), (119648, 119672), (119808,
      119892), (119894, 119964), (119966, 119967), (119970, 119970), (119973, 119974), (119977,
      119980)]"

definition alnum_ranges_7 :: "(nat \<times> nat) list" where
  "alnum_ranges_7 =
     [(119982, 119993), (119995, 119995), (119997, 120003), (120005, 120069), (120071, 120074),
      (120077, 120084), (120086, 120092), (120094, 120121), (120123, 120126), (120128, 120132),
      (120134, 120134), (120138, 120144), (120146, 120485), (120488, 120512), (120514, 120538),
      (120540, 120570), (120572, 120596), (120598, 120628), (120630, 120654), (120656, 120686),
      (120688, 120712), (120714, 120744), (120746, 120770), (120772, 120779), (120782, 120831),
      (122624, 122654), (123136, 123180), (123191, 123197), (123200, 123209), (123214, 123214),
      (123536, 123565), (123584, 123627), (123632, 123641), (124896, 124902), (124904, 124907),
      (124909, 124910), (124912, 124926), (124928, 125124), (125127, 125135), (125184, 125251),
      (125259, 125259), (125264, 125273), (126065, 126123), (126125, 126127), (126129, 126132),
      (126209, 126253), (126255, 126269), (126464, 126467), (126469, 126495), (126497, 126498),
      (126500, 126500), (126503, 126503), (126505, 126514), (126516, 126519), (126521, 126521),
      (126523, 126523), (126530, 126530), (126535, 126535), (126537, 126537), (126539, 126539),
      (126541, 126543), (126545, 126546), (126548, 126548), (126551, 126551), (126553, 126553),
      (126555, 126555), (126557, 126557), (126559, 126559), (126561, 126562), (126564, 126564),
      (126567, 126570), (126572, 126578), (126580, 126583), (126585, 126588), (126590, 126590),
      (126592, 126601), (126603, 126619), (126625, 126627), (126629, 126633), (126635, 126651),
      (127232, 127244), (130032, 130041), (131072, 173791), (173824, 177976), (177984, 178205),
      (178208, 183969), (183984, 191456), (194560, 195101), (196608, 201546)]"

fun in_ranges :: "nat \<Rightarrow> (nat \<times> nat) list \<Rightarrow> bool" where
  "in_ranges c [] = False"
| "in_ranges c ((lo, hi) # rs) = (if lo \<le> c \<and> c \<le> hi then True else in_ranges c rs)"

text \<open>The part of the table a code point falls in is found by the parts' upper bounds.\<close>

definition alnum_ranges :: "nat \<Rightarrow> (nat \<times> nat) list" where
  "alnum_ranges c =
     (if c \<le> 2749 then alnum_ranges_0
      else if c \<le> 4225 then alnum_ranges_1
      else if c \<le> 8180 then alnum_ranges_2
      else if c \<le> 43560 then alnum_ranges_3
      else if c \<le> 67514 then alnum_ranges_4
      else if c \<le> 71236 then alnum_ranges_5
      else if c \<le> 119980 then alnum_ranges_6
      else alnum_ranges_7)"

definition isalnum :: "nat \<Rightarrow> bool" where
  "isalnum c = in_ranges c (alnum_ranges c)"

text \<open>
  \<open>str.isspace\<close> on one character: the code points \<open>str.strip()\<close> removes when it is
  called with no argument.
\<close>

definition isspace :: "nat \<Rightarrow> bool" where
  "isspace c =
     (c \<in> set [9, 10, 11, 12, 13, 28, 29, 30, 31, 32, 133, 160, 5760,
                8192, 8193, 8194, 8195, 8196, 8197, 8198, 8199, 8200, 8201, 8202,
                8232, 8233, 8239, 8287, 12288])"

definition lstrip :: "pystr \<Rightarrow> pystr" where
  "lstrip s = dropWhile isspace s"

definition rstrip :: "pystr \<Rightarrow> pystr" where
  "rstrip s = rev (dropWhile isspace (rev s))"

definition strip :: "pystr \<Rightarrow> pystr" where
  "strip s = rstrip (lstrip s)"

text \<open>\<open>s.replace(old, new)\<close> for single characters \<open>old\<close> and \<open>new\<close>.\<close>

definition replace :: "nat \<Rightarrow> nat \<Rightarrow> pystr \<Rightarrow> pystr" where
  "replace old new s = map (\<lambda>c. if c = old then new else c) s"

text \<open>
  \<open>str.isprintable\<close> on one character, by the same kind of table (Unicode 14.0.0): the
  code points \<open>repr\<close> writes as they are.
\<close>

definition printable_ranges_0 :: "(nat \<times> nat) list" where
  "printable_ranges_0 =
     [(32, 126), (161, 172), (174, 887), (890, 895), (900, 906), (908, 908), (910, 929), (931,
      1327), (1329, 1366), (1369, 1418), (1421, 1423), (1425, 1479), (1488, 1514), (1519, 1524),
      (1542, 1563), (1565, 1756), (1758, 1805), (1808, 1866), (1869, 1969), (1984, 2042), (2045,
      2093), (2096, 2110), (2112, 2139), (2142, 2142), (2144, 2154), (2160, 2190), (2200, 2273),
      (2275, 2435), (2437, 2444), (2447, 2448), (2451, 2472), (2474, 2480), (2482, 2482), (2486,
      2489), (2492, 2500), (2503, 2504), (2507, 2510), (2519, 2519), (2524, 2525), (2527, 2531),
      (2534, 2558), (2561, 2563), (2565, 2570), (2575, 2576), (2579, 2600), (2602, 2608), (2610,
      2611), (2613, 2614), (2616, 2617), (2620, 2620), (2622, 2626), (2631, 2632), (2635, 2637),
      (2641, 2641), (2649, 2652), (2654, 2654), (2662, 2678), (2689, 2691), (2693, 2701), (2703,
      2705), (2707, 2728), (2730, 2736), (2738, 2739), (2741, 2745), (2748, 2757), (2759, 2761),
      (2763, 2765), (2768, 2768), (2784, 2787), (2790, 2801), (2809, 2815), (2817, 2819), (2821,
      2828), (2831, 2832), (2835, 2856), (2858, 2864), (2866, 2867), (2869, 2873), (2876, 2884),
      (2887, 2888), (2891, 2893), (2901, 2903), (2908, 2909), (2911, 2915), (2918, 2935), (2946,
      2947), (2949, 2954), (2958, 2960), (2962, 2965), (2969, 2970), (2972, 2972), (2974, 2975)]"

definition printable_ranges_1 :: "(nat \<times> nat) list" where
  "printable_ranges_1 =
     [(2979, 2980), (2984, 2986), (2990, 3001), (3006, 3010), (3014, 3016), (3018, 3021), (3024,
      3024), (3031, 3031), (3046, 3066), (3072, 3084), (3086, 3088), (3090, 3112), (3114, 3129),
      (3132, 3140), (3142, 3144), (3146, 3149), (3157, 3158), (3160, 3162), (3165, 3165), (3168,
      3171), (3174, 3183), (3191, 3212), (3214, 3216), (3218, 3240), (3242, 3251), (3253, 3257),
      (3260, 3268), (3270, 3272), (3274, 3277), (3285, 3286), (3293, 3294), (3296, 3299), (3302,
      3311), (3313, 3314), (3328, 3340), (3342, 3344), (3346, 3396), (3398, 3400), (3402, 3407),
      (3412, 3427), (3430, 3455), (3457, 3459), (3461, 3478), (3482, 3505), (3507, 3515), (3517,
      3517), (3520, 3526), (3530, 3530), (3535, 3540), (3542, 3542), (3544, 3551), (3558, 3567),
      (3570, 3572), (3585, 3642), (3647, 3675), (3713, 3714), (3716, 3716), (3718, 3722), (3724,
      3747), (3749, 3749), (3751, 3773), (3776, 3780), (3782, 3782), (3784, 3789), (3792, 3801),
      (3804, 3807), (3840, 3911), (3913, 3948), (3953, 3991), (3993, 4028), (4030, 4044), (4046,
      4058), (4096, 4293), (4295, 4295), (4301, 4301), (4304, 4680), (4682, 4685), (4688, 4694),
      (4696, 4696), (4698, 4701), (4704, 4744), (4746, 4749), (4752, 4784), (4786, 4789), (4792,
      4798), (4800, 4800), (4802, 4805), (4808, 4822), (4824, 4880), (4882, 4885), (4888, 4954),
      (4957, 4988)]"

definition printable_ranges_2 :: "(nat \<times> nat) list" where
  "printable_ranges_2 =
     [(4992, 5017), (5024, 5109), (5112, 5117), (5120, 5759), (5761, 5788), (5792, 5880), (5888,
      5909), (5919, 5942), (5952, 5971), (5984, 5996), (5998, 6000), (6002, 6003), (6016, 6109),
      (6112, 6121), (6128, 6137), (6144, 6157), (6159, 6169), (6176, 6264), (6272, 6314), (6320,
      6389), (6400, 6430), (6432, 6443), (6448, 6459), (6464, 6464), (6468, 6509), (6512, 6516),
      (6528, 6571), (6576, 6601), (6608, 6618), (6622, 6683), (6686, 6750), (6752, 6780), (6783,
      6793), (6800, 6809), (6816, 6829), (6832, 6862), (6912, 6988), (6992, 7038), (7040, 7155),
      (7164, 7223), (7227, 7241), (7245, 7304), (7312, 7354), (7357, 7367), (7376, 7418), (7424,
      7957), (7960, 7965), (7968, 8005), (8008, 8013), (8016, 8023), (8025, 8025), (8027, 8027),
      (8029, 8029), (8031, 8061), (8064, 8116), (8118, 8132), (8134, 8147), (8150, 8155), (8157,
      8175), (8178, 8180), (8182, 8190), (8208, 8231), (8240, 8286), (8304, 8305), (8308, 8334),
      (8336, 8348), (8352, 8384), (8400, 8432), (8448, 8587), (8592, 9254), (9280, 9290), (9312,
      11123), (11126, 11157), (11159, 11507), (11513, 11557), (11559, 11559), (11565, 11565),
      (11568, 11623), (11631, 11632), (11647, 11670), (11680, 11686), (11688, 11694), (11696,
      11702), (11704, 11710), (11712, 11718), (11720, 11726), (11728, 11734), (11736, 11742),
      (11744, 11869), (11904, 11929), (11931, 12019), (12032, 12245)]"

definition printable_ranges_3 :: "(nat \<times> nat) list" where
  "printable_ranges_3 =
     [(12272, 12283), (12289, 12351), (12353, 12438), (12441, 12543), (12549, 12591), (12593,
      12686), (12688, 12771), (12784, 12830), (12832, 42124), (42128, 42182), (42192, 42539),
      (42560, 42743), (42752, 42954), (42960, 42961), (42963, 42963), (42965, 42969), (42994,
      43052), (43056, 43065), (43072, 43127), (43136, 43205), (43214, 43225), (43232, 43347),
      (43359, 43388), (43392, 43469), (43471, 43481), (43486, 43518), (43520, 43574), (43584,
      43597), (43600, 43609), (43612, 43714), (43739, 43766), (43777, 43782), (43785, 43790),
      (43793, 43798), (43808, 43814), (43816, 43822), (43824, 43883), (43888, 44013), (44016,
      44025), (44032, 55203), (55216, 55238), (55243, 55291), (63744, 64109), (64112, 64217),
      (64256, 64262), (64275, 64279), (64285, 64310), (64312, 64316), (64318, 64318), (64320,
      64321), (64323, 64324), (64326, 64450), (64467, 64911), (64914, 64967), (64975, 64975),
      (65008, 65049), (65056, 65106), (65108, 65126), (65128, 65131), (65136, 65140), (65142,
      65276), (65281, 65470), (65474, 65479), (65482, 65487), (65490, 65495), (65498, 65500),
      (65504, 65510), (65512, 65518), (65532, 65533), (65536, 65547), (65549, 65574), (65576,
      65594), (65596, 65597), (65599, 65613), (65616, 65629), (65664, 65786), (65792, 65794),
      (65799, 65843), (65847, 65934), (65936, 65948), (65952, 65952), (66000, 66045), (66176,
      66204), (66208, 66256), (66272, 66299), (66304, 66339), (66349, 66378), (66384, 66426),
      (66432, 66461), (66463, 66499), (66504, 66517), (66560, 66717)]"

definition printable_ranges_4 :: "(nat \<times> nat) list" where
  "printable_ranges_4 =
     [(66720, 66729), (66736, 66771), (66776, 66811), (66816, 66855), (66864, 66915), (66927,
      66938), (66940, 66954), (66956, 66962), (66964, 66965), (66967, 66977), (66979, 66993),
      (66995, 67001), (67003, 67004), (67072, 67382), (67392, 67413), (67424, 67431), (67456,
      67461), (67463, 67504), (67506, 67514), (67584, 67589), (67592, 67592), (67594, 67637),
      (67639, 67640), (67644, 67644), (67647, 67669), (67671, 67742), (67751, 67759), (67808,
      67826), (67828, 67829), (67835, 67867), (67871, 67897), (67903, 67903), (67968, 68023),
      (68028, 68047), (68050, 68099), (68101, 68102), (68108, 68115), (68117, 68119), (68121,
      68149), (68152, 68154), (68159, 68168), (68176, 68184), (68192, 68255), (68288, 68326),
      (68331, 68342), (68352, 68405), (68409, 68437), (68440, 68466), (68472, 68497), (68505,
      68508), (68521, 68527), (68608, 68680), (68736, 68786), (68800, 68850), (68858, 68903),
      (68912, 68921), (69216, 69246), (69248, 69289), (69291, 69293), (69296, 69297), (69376,
      69415), (69424, 69465), (69488, 69513), (69552, 69579), (69600, 69622), (69632, 69709),
      (69714, 69749), (69759, 69820), (69822, 69826), (69840, 69864), (69872, 69881), (69888,
      69940), (69942, 69959), (69968, 70006), (70016, 70111), (70113, 70132), (70144, 70161),
      (70163, 70206), (70272, 70278), (70280, 70280), (70282, 70285), (70287, 70301), (70303,
      70313), (70320, 70378), (70384, 70393), (70400, 70403), (70405, 70412), (70415, 70416),
      (70419, 70440), (70442, 70448), (70450, 70451), (70453, 70457)]"

definition printable_ranges_5 :: "(nat \<times> nat) list" where
  "printable_ranges_5 =
     [(70459, 70468), (70471, 70472), (70475, 70477), (70480, 70480), (70487, 70487), (70493,
      70499), (70502, 70508), (70512, 70516), (70656, 70747), (70749, 70753), (70784, 70855),
      (70864, 70873), (71040, 71093), (71096, 71133), (71168, 71236), (71248, 71257), (71264,
      71276), (71296, 71353), (71360, 71369), (71424, 71450), (71453, 71467), (71472, 71494),
      (71680, 71739), (71840, 71922), (71935, 71942), (71945, 71945), (71948, 71955), (71957,
      71958), (71960, 71989), (71991, 71992), (71995, 72006), (72016, 72025), (72096, 72103),
      (72106, 72151), (72154, 72164), (72192, 72263), (72272, 72354), (72368, 72440), (72704,
      72712), (72714, 72758), (72760, 72773), (72784, 72812), (72816, 72847), (72850, 72871),
      (72873, 72886), (72960, 72966), (72968, 72969), (72971, 73014), (73018, 73018), (73020,
      73021), (73023, 73031), (73040, 73049), (73056, 73061), (73063, 73064), (73066, 73102),
      (73104, 73105), (73107, 73112), (73120, 73129), (73440, 73464), (73648, 73648), (73664,
      73713), (73727, 74649), (74752, 74862), (74864, 74868), (74880, 75075), (77712, 77810),
      (77824, 78894), (82944, 83526), (92160, 92728), (92736, 92766), (92768, 92777), (92782,
      92862), (92864, 92873), (92880, 92909), (92912, 92917), (92928, 92997), (93008, 93017),
      (93019, 93025), (93027, 93047), (93053, 93071), (93760, 93850), (93952, 94026), (94031,
      94087), (94095, 94111), (94176, 94180), (94192, 94193), (94208, 100343), (100352, 101589),
      (101632, 101640), (110576, 110579), (110581, 110587), (110589, 110590)]"

definition printable_ranges_6 :: "(nat \<times> nat) list" where
  "printable_ranges_6 =
     [(110592, 110882), (110928, 110930), (110948, 110951), (110960, 111355), (113664, 113770),
      (113776, 113788), (113792, 113800), (113808, 113817), (113820, 113823), (118528, 118573),
      (118576, 118598), (118608, 118723), (118784, 119029), (119040, 119078), (119081, 119154),
      (119163, 119274), (119296, 119365), (119520, 119539), (119552, 119638), (119648, 119672),
      (119808, 119892), (119894, 119964), (119966, 119967), (119970, 119970), (119973, 119974),
      (119977, 119980), (119982, 119993), (119995, 119995), (119997, 120003), (120005, 120069),
      (120071, 120074), (120077, 120084), (120086, 120092), (120094, 120121), (120123, 120126),
      (120128, 120132), (120134, 120134), (120138, 120144), (120146, 120485), (120488, 120779),
      (120782, 121483), (121499, 121503), (121505, 121519), (122624, 122654), (122880, 122886),
      (122888, 122904), (122907, 122913), (122915, 122916), (122918, 122922), (123136, 123180),
      (123184, 123197), (123200, 123209), (123214, 123215), (123536, 123566), (123584, 123641),
      (123647, 123647), (124896, 124902), (124904, 124907), (124909, 124910), (124912, 124926),
      (124928, 125124), (125127, 125142), (125184, 125259), (125264, 125273), (125278, 125279),
      (126065, 126132), (126209, 126269), (126464, 126467), (126469, 126495), (126497, 126498),
      (126500, 126500), (126503, 126503), (126505, 126514), (126516, 126519), (126521, 126521),
      (126523, 126523), (126530, 126530), (126535, 126535), (126537, 126537), (126539, 126539),
      (126541, 126543), (126545, 126546), (126548, 126548), (126551, 126551), (126553, 126553),
      (126555, 126555), (126557, 126557), (126559, 126559), (126561, 126562), (126564, 126564),
      (126567, 126570), (126572, 126578)]"

definition printable_ranges_7 :: "(nat \<times> nat) list" where
  "printable_ranges_7 =
     [(126580, 126583), (126585, 126588), (126590, 126590), (126592, 126601), (126603, 126619),
      (126625, 126627), (126629, 126633), (126635, 126651), (126704, 126705), (126976, 127019),
      (127024, 127123), (127136, 127150), (127153, 127167), (127169, 127183), (127185, 127221),
      (127232, 127405), (127462, 127490), (127504, 127547), (127552, 127560), (127568, 127569),
      (127584, 127589), (127744, 128727), (128733, 128748), (128752, 128764), (128768, 128883),
      (128896, 128984), (128992, 129003), (129008, 129008), (129024, 129035), (129040, 129095),
      (129104, 129113), (129120, 129159), (129168, 129197), (129200, 129201), (129280, 129619),
      (129632, 129645), (129648, 129652), (129656, 129660), (129664, 129670), (129680, 129708),
      (129712, 129722), (129728, 129733), (129744, 129753), (129760, 129767), (129776, 129782),
      (129792, 129938), (129940, 129994), (130032, 130041), (131072, 173791), (173824, 177976),
      (177984, 178205), (178208, 183969), (183984, 191456), (194560, 195101), (196608, 201546),
      (917760, 917999)]"

definition printable_ranges :: "nat \<Rightarrow> (nat \<times> nat) list" where
  "printable_ranges c =
     (if c \<le> 2975 then printable_ranges_0
      else if c \<le> 4988 then printable_ranges_1
      else if c \<le> 12245 then printable_ranges_2
      else if c \<le> 66717 then printable_ranges_3
      else if c \<le> 70457 then printable_ranges_4
      else if c \<le> 110590 then printable_ranges_5
      else if c \<le> 126578 then printable_ranges_6
      else printable_ranges_7)"

definition isprintable :: "nat \<Rightarrow> bool" where
  "isprintable c = in_ranges c (printable_ranges c)"

text \<open>
  \<open>repr(s)\<close> of a \<open>str\<close>. The string is written between single quotes (39), or between
  double quotes (34) when it holds a single quote and no double quote. The quote
  character and the backslash (92) are escaped with a backslash; tab, line feed and
  carriage return are written \<open>\t\<close>, \<open>\n\<close>, \<open>\r\<close>; the other ASCII control characters and
  the characters that are not printable are written as \<open>\x\<close>, \<open>\u\<close> or \<open>\U\<close> escapes with
  two, four or eight lower-case hexadecimal digits.
\<close>

definition hex_digit :: "nat \<Rightarrow> nat" where
  "hex_digit n = (if n < 10 then 48 + n else 87 + n)"

definition hex_fixed :: "nat \<Rightarrow> nat \<Rightarrow> pystr" where
  "hex_fixed w n = map (\<lambda>i. hex_digit ((n div 16 ^ i) mod 16)) (rev [0..<w])"

definition repr_char :: "nat \<Rightarrow> nat \<Rightarrow> pystr" where
  "repr_char quote c =
     (if c = quote \<or> c = 92 then [92, c]
      else if c = 9 then [92, 116]
      else if c = 10 then [92, 110]
      else if c = 13 then [92, 114]
      else if c < 32 \<or> c = 127 then [92, 120] @ hex_fixed 2 c
      else if c < 127 then [c]
      else if \<not> isprintable c then
        (if c \<le> 255 then [92, 120] @ hex_fixed 2 c
         else if c \<le> 65535 then [92, 117] @ hex_fixed 4 c
         else [92, 85] @ hex_fixed 8 c)
      else [c])"

definition repr :: "pystr \<Rightarrow> pystr" where
  "repr s =
     (let quote = (if 39 \<in> set s \<and> 34 \<notin> set s then 34 else 39)
      in [quote] @ concat (map (repr_char quote) s) @ [quote])"

section \<open>The filename sanitizer\<close>

text \<open>
  Lines 55 to 57 of \<open>handle_video\<close>:
  \<^verbatim>\<open>"".join(c for c in description if c.isalnum() or c in (' ', '-', '_'))
       .strip().replace(' ', '_') + '.mp4'\<close>
  The three characters kept besides the alphanumeric ones are the space (32), the hyphen
  (45) and the underscore (95).
\<close>

definition kept :: "nat \<Rightarrow> bool" where
  "kept c = (isalnum c \<or> c = 32 \<or> c = 45 \<or> c = 95)"

definition sanitized_base :: "pystr \<Rightarrow> pystr" where
  "sanitized_base description = replace 32 95 (strip (filter kept description))"

definition sanitized_name :: "pystr \<Rightarrow> pystr" where
  "sanitized_name description = sanitized_base description @ ascii ''.mp4''"

section \<open>Formatting and paths\<close>

text \<open>
  \<open>str(n)\<close> of a Python \<open>int\<close>, which is also what an f-string writes for \<open>{n}\<close>: the
  decimal digits, after a minus sign (45) when the number is negative.
\<close>

fun digits :: "nat \<Rightarrow> pystr" where
  "digits n = (if n < 10 then [48 + n] else digits (n div 10) @ [48 + n mod 10])"

definition str_int :: "int \<Rightarrow> pystr" where
  "str_int i = (if i < 0 then 45 # digits (nat (- i)) else digits (nat i))"

text \<open>
  \<open>os.path.join(a, b)\<close> of \<open>posixpath\<close> with two arguments: an absolute \<open>b\<close> replaces
  \<open>a\<close>; otherwise \<open>b\<close> is appended, after a separator (47) unless \<open>a\<close> is empty or ends
  with one.
\<close>

definition join :: "pystr \<Rightarrow> pystr \<Rightarrow> pystr" where
  "join a b =
     (if take 1 b = [47] then b
      else if a = [] \<or> last a = 47 then a @ b
      else a @ [47] @ b)"

text \<open>
  \<open>s.rfind(c)\<close> for a single character: the highest index of \<open>c\<close> in \<open>s\<close>, or \<open>-1\<close>.
\<close>

definition rfind :: "pystr \<Rightarrow> nat \<Rightarrow> int" where
  "rfind s c =
     (if c \<in> set s then int (length s - 1 - length (takeWhile (\<lambda>x. x \<noteq> c) (rev s))) else - 1)"

text \<open>
  \<open>os.path.splitext\<close> of \<open>posixpath\<close> (\<open>genericpath._splitext\<close> with separator \<open>/\<close>, no
  alternative separator, extension separator \<open>.\<close>):
  \<^verbatim>\<open>sepIndex = p.rfind(sep)
  dotIndex = p.rfind(extsep)
  if dotIndex > sepIndex:
      filenameIndex = sepIndex + 1
      while filenameIndex < dotIndex:
          if p[filenameIndex:filenameIndex+1] != extsep:
              return p[:dotIndex], p[dotIndex:]
          filenameIndex += 1
  return p, p[:0]\<close>
  \<open>non_dot_before p i dot\<close> is the while loop started at \<open>filenameIndex = i\<close>: true when it
  reaches the inner \<open>return\<close>.
\<close>

function non_dot_before :: "pystr \<Rightarrow> nat \<Rightarrow> nat \<Rightarrow> bool" where
  "non_dot_before p i dot =
     (if i < dot then (if take 1 (drop i p) \<noteq> [46] then True else non_dot_before p (Suc i) dot)
      else False)"
  by pat_completeness auto
termination
  by (relation "measure (\<lambda>(p, i, dot). dot - i)") auto

definition splitext :: "pystr \<Rightarrow> pystr \<times> pystr" where
  "splitext p =
     (let sepIndex = rfind p 47; dotIndex = rfind p 46
      in if dotIndex > sepIndex \<and> non_dot_before p (nat (sepIndex + 1)) (nat dotIndex)
         then (take (nat dotIndex) p, drop (nat dotIndex) p)
         else (p, []))"

section \<open>State of a session and of the process\<close>

text \<open>
  A pending video is the dictionary \<open>{'path': ..., 'name': ...}\<close> that \<open>handle_video\<close>
  appends. An attachment is the \<open>video\<close> or \<open>document\<close> object of a message, of which the
  handlers read \<open>file_id\<close> and \<open>file_unique_id\<close>. An update carries the message and the
  sender's \<open>effective_user.id\<close>.
\<close>

record video_rec =
  path :: pystr
  name :: pystr

record attachment =
  file_id :: pystr
  file_unique_id :: pystr

record message =
  video :: "attachment option"
  document :: "attachment option"
  caption :: "pystr option"

record update =
  message :: message
  effective_user_id :: int

text \<open>
  A file on disk is a downloaded payload or a zip archive, the latter as the list of its
  entries (archive name and content) in the order they were written; \<open>zipfile\<close> appends an
  entry also when its name is already taken.
\<close>

datatype content = Blob "nat list" | Archive "(pystr \<times> content) list"

text \<open>What the bot sends to the user: \<open>reply_text\<close> and \<open>reply_document\<close>.\<close>

datatype reply =
  Text pystr
| Document (doc_data: content) (doc_caption: pystr) (doc_filename: pystr)

text \<open>
  The state the handlers work on: \<open>videos\<close> is \<open>context.user_data\<close> at the key
  \<open>'videos'\<close> (\<open>None\<close> while the key is absent), \<open>disk\<close> the files of the file system by
  path, \<open>sent\<close> the replies sent so far, oldest first.
\<close>

record state =
  videos :: "video_rec list option"
  disk :: "pystr \<rightharpoonup> content"
  sent :: "reply list"

text \<open>
  The surroundings of the process: \<open>TEMP_DIR\<close> is the directory \<open>tempfile.mkdtemp\<close> made at
  start-up, \<open>remote_file\<close> the payload Telegram serves for a \<open>file_id\<close>.
\<close>

record env =
  TEMP_DIR :: pystr
  remote_file :: "pystr \<Rightarrow> nat list"

text \<open>
  Exceptions. A missing file raises \<open>FileNotFoundError\<close>, whose \<open>str\<close> is the error number,
  the message of the operating system and the \<open>repr\<close> of the file name; \<open>Raised t\<close> is any
  other exception, with \<open>str(e) = t\<close>.
\<close>

datatype exn = FileNotFoundError pystr | Raised pystr

fun str_exn :: "exn \<Rightarrow> pystr" where
  "str_exn (FileNotFoundError p) = ascii ''[Errno 2] No such file or directory: '' @ repr p"
| "str_exn (Raised t) = t"

text \<open>
  The calls the source guards with \<open>try\<close> can fail for reasons the file system of the model
  does not decide (a full disk, a lost connection, a file that is in use). \<open>faults\<close> says
  which of them do: in the \<open>try\<close> block of \<open>create_zip\<close>, opening the archive for writing,
  adding the source at a given path, and \<open>reply_document\<close>; in \<open>cleanup_files\<close>, removing
  the file at a given path. Calls of the Telegram API outside a \<open>try\<close> block are taken to
  succeed.
\<close>

record faults =
  open_fault :: "exn option"
  write_fault :: "pystr \<Rightarrow> exn option"
  send_fault :: "exn option"
  remove_fault :: "pystr \<Rightarrow> exn option"

definition no_faults :: faults where
  "no_faults =
     \<lparr>open_fault = None, write_fault = (\<lambda>p. None), send_fault = None,
      remove_fault = (\<lambda>p. None)\<rparr>"

definition collection :: "state \<Rightarrow> video_rec list" where
  "collection s = (case videos s of None \<Rightarrow> [] | Some vs \<Rightarrow> vs)"

definition reply_text :: "pystr \<Rightarrow> state \<Rightarrow> state" where
  "reply_text t s = s\<lparr>sent := sent s @ [Text t]\<rparr>"

section \<open>The handlers\<close>

subsection \<open>start\<close>

definition start_text :: pystr where
  "start_text =
     [128249] @ ascii '' Video Collector Bot'' @ [10, 10] @
     ascii ''1. Send me video files with descriptions (captions)'' @ [10] @
     ascii ''2. I'' @ [39] @ ascii ''ll collect them all'' @ [10] @
     ascii ''3. Send /zip when you'' @ [39] @ ascii ''re done to get a zip file'' @ [10] @
     ascii ''4. All videos will be named according to their descriptions'' @ [10, 10] @
     ascii ''Send your first video with a description to begin!''"

definition start :: "update \<Rightarrow> state \<Rightarrow> state" where
  "start u s = (reply_text start_text s)\<lparr>videos := Some []\<rparr>"

subsection \<open>handle\_video\<close>

definition no_video_text :: pystr where
  "no_video_text = [9888, 65039] @ ascii '' Please send a valid video file!''"

definition no_caption_text :: pystr where
  "no_caption_text =
     [9888, 65039] @ ascii '' Please include a description (caption) with your video!''"

definition saved_text :: "pystr \<Rightarrow> nat \<Rightarrow> pystr" where
  "saved_text sanitized n =
     [9989] @ ascii '' Video saved as: '' @ sanitized @ [10] @
     ascii ''Total videos collected: '' @ str_int (int n) @ [10] @
     ascii ''Send more videos or /zip when done''"

text \<open>\<open>update.message.video or update.message.document\<close>.\<close>

definition video_file :: "message \<Rightarrow> attachment option" where
  "video_file m = (case video m of Some v \<Rightarrow> Some v | None \<Rightarrow> document m)"

text \<open>
  \<open>os.path.join(TEMP_DIR, f"temp_{update.effective_user.id}_{video_file.file_unique_id}.mp4")\<close>
\<close>

definition temp_video_path :: "pystr \<Rightarrow> int \<Rightarrow> pystr \<Rightarrow> pystr" where
  "temp_video_path tmp uid fuid =
     join tmp (ascii ''temp_'' @ str_int uid @ [95] @ fuid @ ascii ''.mp4'')"

text \<open>
  The handler: the key \<open>'videos'\<close> is set to the empty list when it is absent, before
  anything else; a message with no attachment, or with no caption or an empty one, is
  answered and nothing more happens; otherwise the payload is downloaded to the temporary
  path, the record is appended and the confirmation sent.
\<close>

definition handle_video :: "env \<Rightarrow> update \<Rightarrow> state \<Rightarrow> state" where
  "handle_video e u s =
     (let s1 = (case videos s of None \<Rightarrow> s\<lparr>videos := Some []\<rparr> | Some vs \<Rightarrow> s)
      in case video_file (message u) of
           None \<Rightarrow> reply_text no_video_text s1
         | Some vf \<Rightarrow>
             (case caption (message u) of
                None \<Rightarrow> reply_text no_caption_text s1
              | Some description \<Rightarrow>
                  if description = [] then reply_text no_caption_text s1
                  else
                    let sanitized = sanitized_name description;
                        temp_path = temp_video_path (TEMP_DIR e) (effective_user_id u)
                                      (file_unique_id vf);
                        s2 = s1\<lparr>disk := (disk s1)(temp_path \<mapsto> Blob (remote_file e (file_id vf)))\<rparr>;
                        vs = collection s2 @ [\<lparr>path = temp_path, name = sanitized\<rparr>];
                        s3 = s2\<lparr>videos := Some vs\<rparr>
                    in reply_text (saved_text sanitized (length vs)) s3))"

subsection \<open>cleanup\_files\<close>

definition os_path_exists :: "pystr \<Rightarrow> (pystr \<rightharpoonup> content) \<Rightarrow> bool" where
  "os_path_exists p d = (d p \<noteq> None)"

text \<open>
  \<open>os.remove(p)\<close>: a missing file raises \<open>FileNotFoundError\<close>, and the removal of a file that
  is there raises when the surroundings make it fail.
\<close>

definition os_remove ::
  "faults \<Rightarrow> pystr \<Rightarrow> (pystr \<rightharpoonup> content) \<Rightarrow> exn + (pystr \<rightharpoonup> content)" where
  "os_remove f p d =
     (case d p of
        None \<Rightarrow> Inl (FileNotFoundError p)
      | Some c \<Rightarrow> (case remove_fault f p of Some ex \<Rightarrow> Inl ex | None \<Rightarrow> Inr (d(p := None))))"

text \<open>
  One \<open>try: if os.path.exists(p): os.remove(p) except: pass\<close>: an exception of the removal
  is swallowed and leaves the disk as it was, the file still there.
\<close>

definition remove_if_exists ::
  "faults \<Rightarrow> pystr \<Rightarrow> (pystr \<rightharpoonup> content) \<Rightarrow> (pystr \<rightharpoonup> content)" where
  "remove_if_exists f p d =
     (if os_path_exists p d then (case os_remove f p d of Inl ex \<Rightarrow> d | Inr d' \<Rightarrow> d') else d)"

fun cleanup_files ::
  "faults \<Rightarrow> video_rec list \<Rightarrow> pystr \<Rightarrow> (pystr \<rightharpoonup> content) \<Rightarrow> (pystr \<rightharpoonup> content)" where
  "cleanup_files f [] zip_path d = remove_if_exists f zip_path d"
| "cleanup_files f (v # vs) zip_path d =
     cleanup_files f vs zip_path (remove_if_exists f (path v) d)"

subsection \<open>create\_zip\<close>

definition no_videos_text :: pystr where
  "no_videos_text = [9888, 65039] @ ascii '' No videos collected yet!''"

definition zip_error_text :: "exn \<Rightarrow> pystr" where
  "zip_error_text ex = [9888, 65039] @ ascii '' Error creating zip file: '' @ str_exn ex"

definition zip_caption :: pystr where
  "zip_caption = ascii ''Here are your videos with descriptive names!''"

text \<open>\<open>os.path.join(TEMP_DIR, f"videos_{update.effective_user.id}.zip")\<close>\<close>

definition zip_path_of :: "pystr \<Rightarrow> int \<Rightarrow> pystr" where
  "zip_path_of tmp uid = join tmp (ascii ''videos_'' @ str_int uid @ ascii ''.zip'')"

text \<open>
  \<open>zipf.write(src, arcname)\<close> on the archive open at \<open>zip_path\<close>: a missing source raises
  \<open>FileNotFoundError\<close>, otherwise the entry is appended to the archive.
\<close>

definition archive_entries :: "content option \<Rightarrow> (pystr \<times> content) list" where
  "archive_entries c = (case c of Some (Archive es) \<Rightarrow> es | _ \<Rightarrow> [])"

definition zipf_write ::
  "faults \<Rightarrow> pystr \<Rightarrow> pystr \<Rightarrow> pystr \<Rightarrow> (pystr \<rightharpoonup> content) \<Rightarrow> exn + (pystr \<rightharpoonup> content)" where
  "zipf_write f zip_path src arcname d =
     (case d src of
        None \<Rightarrow> Inl (FileNotFoundError src)
      | Some c \<Rightarrow>
          (case write_fault f src of
             Some ex \<Rightarrow> Inl ex
           | None \<Rightarrow> Inr (d(zip_path \<mapsto> Archive (archive_entries (d zip_path) @ [(arcname, c)])))))"

text \<open>
  The \<open>for\<close> loop of the \<open>with\<close> block. An exception ends it; the archive then stays on disk
  with the entries written so far, since leaving the \<open>with\<close> block closes it.
\<close>

fun write_videos ::
  "faults \<Rightarrow> pystr \<Rightarrow> video_rec list \<Rightarrow> (pystr \<rightharpoonup> content) \<Rightarrow> exn option \<times> (pystr \<rightharpoonup> content)" where
  "write_videos f zip_path [] d = (None, d)"
| "write_videos f zip_path (v # vs) d =
     (case zipf_write f zip_path (path v) (name v) d of
        Inl ex \<Rightarrow> (Some ex, d)
      | Inr d' \<Rightarrow> write_videos f zip_path vs d')"

text \<open>
  The \<open>try\<close> block up to and including \<open>reply_document\<close>: the archive is opened for writing
  (created empty, or truncated), the videos are written, the file is opened for reading
  and sent under \<open>zip_filename\<close>. The result is the exception raised, if any, and the state
  reached.
\<close>

definition build_and_send ::
  "faults \<Rightarrow> pystr \<Rightarrow> pystr \<Rightarrow> video_rec list \<Rightarrow> state \<Rightarrow> exn option \<times> state" where
  "build_and_send f zip_path zip_filename vs s =
     (case open_fault f of
        Some ex \<Rightarrow> (Some ex, s)
      | None \<Rightarrow>
          (case write_videos f zip_path vs ((disk s)(zip_path \<mapsto> Archive [])) of
             (Some ex, d) \<Rightarrow> (Some ex, s\<lparr>disk := d\<rparr>)
           | (None, d) \<Rightarrow>
               (case d zip_path of
                  None \<Rightarrow> (Some (FileNotFoundError zip_path), s\<lparr>disk := d\<rparr>)
                | Some c \<Rightarrow>
                    (case send_fault f of
                       Some ex \<Rightarrow> (Some ex, s\<lparr>disk := d\<rparr>)
                     | None \<Rightarrow>
                         (None, s\<lparr>disk := d,
                                  sent := sent s @ [Document c zip_caption zip_filename]\<rparr>)))))"

text \<open>
  \<open>create_zip\<close>: the guard on an absent or empty collection, the names, the \<open>try\<close> block
  and its \<open>except\<close> branch. Both ways end with \<open>cleanup_files\<close> on the collection and the
  archive path, and with the collection set to the empty list. \<open>cleanup_files\<close> walks the
  records of the collection as it is then; it knows of no other file.
\<close>

definition create_zip :: "env \<Rightarrow> faults \<Rightarrow> update \<Rightarrow> state \<Rightarrow> state" where
  "create_zip e f u s =
     (case videos s of
        None \<Rightarrow> reply_text no_videos_text s
      | Some [] \<Rightarrow> reply_text no_videos_text s
      | Some (v # vs) \<Rightarrow>
          (let base_name = fst (splitext (name v));
               zip_filename = base_name @ ascii ''.zip'';
               zip_path = zip_path_of (TEMP_DIR e) (effective_user_id u)
           in case build_and_send f zip_path zip_filename (v # vs) s of
                (None, s1) \<Rightarrow>
                  s1\<lparr>disk := cleanup_files f (v # vs) zip_path (disk s1), videos := Some []\<rparr>
              | (Some ex, s1) \<Rightarrow>
                  (let s2 = reply_text (zip_error_text ex) s1
                   in s2\<lparr>disk := cleanup_files f (v # vs) zip_path (disk s2),
                         videos := Some []\<rparr>)))"

text \<open>A session that sends the messages \<open>ms\<close> one after the other.\<close>

definition ingest :: "env \<Rightarrow> int \<Rightarrow> message list \<Rightarrow> state \<Rightarrow> state" where
  "ingest e uid ms s =
     foldl (\<lambda>s' m. handle_video e \<lparr>message = m, effective_user_id = uid\<rparr> s') s ms"

section \<open>Notions for stating the claims\<close>

text \<open>
  The character set the specification names for sanitized names: ASCII letters and digits,
  the space, the underscore and the hyphen.
\<close>

definition spec_charset :: "nat \<Rightarrow> bool" where
  "spec_charset c =
     ((65 \<le> c \<and> c \<le> 90) \<or> (97 \<le> c \<and> c \<le> 122) \<or> (48 \<le> c \<and> c \<le> 57) \<or>
      c = 32 \<or> c = 95 \<or> c = 45)"

text \<open>A string without its leading and trailing spaces.\<close>

definition trim_spaces :: "pystr \<Rightarrow> pystr" where
  "trim_spaces s = rev (dropWhile (\<lambda>c. c = 32) (rev (dropWhile (\<lambda>c. c = 32) s)))"

text \<open>
  A message \<open>handle_video\<close> accepts carries an attachment and a caption that is not empty;
  \<open>pending\<close> is the record the handler makes of it for the user \<open>uid\<close>.
\<close>

definition accepted :: "message \<Rightarrow> bool" where
  "accepted m = (video_file m \<noteq> None \<and> caption m \<noteq> None \<and> caption m \<noteq> Some [])"

definition pending :: "env \<Rightarrow> int \<Rightarrow> message \<Rightarrow> video_rec" where
  "pending e uid m =
     \<lparr>path = temp_video_path (TEMP_DIR e) uid (file_unique_id (the (video_file m))),
      name = sanitized_name (the (caption m))\<rparr>"

section \<open>An example session\<close>

text \<open>
  A process, a fresh session of user 7 and an update with a video attachment and a given
  caption, for running the handlers on concrete inputs.
\<close>

definition ex_env :: env where
  "ex_env = \<lparr>TEMP_DIR = ascii ''/tmp/video_bot_x'', remote_file = (\<lambda>fid. [1, 2, 3])\<rparr>"

definition ex_state :: state where
  "ex_state = \<lparr>videos = None, disk = Map.empty, sent = []\<rparr>"

definition ex_message :: "pystr option \<Rightarrow> message" where
  "ex_message c =
     \<lparr>video = Some \<lparr>file_id = ascii ''F1'', file_unique_id = ascii ''Q1''\<rparr>,
      document = None, caption = c\<rparr>"

definition ex_update :: "pystr option \<Rightarrow> update" where
  "ex_update c = \<lparr>message = ex_message c, effective_user_id = 7\<rparr>"

text \<open>An update of the same user with another video, and a delivery that times out.\<close>

definition ex_other_message :: "pystr option \<Rightarrow> message" where
  "ex_other_message c =
     \<lparr>video = Some \<lparr>file_id = ascii ''F2'', file_unique_id = ascii ''Q2''\<rparr>,
      document = None, caption = c\<rparr>"

definition ex_other_update :: "pystr option \<Rightarrow> update" where
  "ex_other_update c = \<lparr>message = ex_other_message c, effective_user_id = 7\<rparr>"

text \<open>
  The session after a first video, then \<open>/start\<close>, then the other video: the collection
  holds the second record only, and the file of the first is still on disk.
\<close>

definition ex_restarted :: state where
  "ex_restarted =
     handle_video ex_env (ex_other_update (Some (ascii ''b'')))
       (start (ex_update None) (handle_video ex_env (ex_update (Some (ascii ''a''))) ex_state))"

definition ex_timeout :: faults where
  "ex_timeout = no_faults\<lparr>send_fault := Some (Raised (ascii ''Timed out''))\<rparr>"

section \<open>Basic facts\<close>

declare digits.simps [simp del]

declare non_dot_before.simps [simp del]

lemma ascii_Nil_iff [simp]: "(ascii s = []) = (s = [])"
  by (simp add: ascii_def)

section \<open>The sanitizer\<close>

lemma in_ranges_above: "list_all (\<lambda>(lo, hi). b \<le> lo) rs \<Longrightarrow> c < b \<Longrightarrow> \<not> in_ranges c rs"
  by (induction rs) auto

lemma isalnum_ascii:
  assumes "isalnum c" "c < 128"
  shows "(48 \<le> c \<and> c \<le> 57) \<or> (65 \<le> c \<and> c \<le> 90) \<or> (97 \<le> c \<and> c \<le> 122)"
proof -
  have tl: "list_all (\<lambda>(lo, hi). (128::nat) \<le> lo) (drop 3 alnum_ranges_0)"
    by (simp add: alnum_ranges_0_def)
  have hd: "take 3 alnum_ranges_0 = [(48, 57), (65, 90), (97, 122)]"
    by (simp add: alnum_ranges_0_def)
  have "in_ranges c alnum_ranges_0"
    using assms by (simp add: isalnum_def alnum_ranges_def)
  then have "in_ranges c ([(48, 57), (65, 90), (97, 122)] @ drop 3 alnum_ranges_0)"
    by (simp only: append_take_drop_id flip: hd)
  then show ?thesis
    using in_ranges_above [OF tl assms(2)] by (auto split: if_splits)
qed

lemma ascii_alnum:
  assumes "(48 \<le> c \<and> c \<le> 57) \<or> (65 \<le> c \<and> c \<le> 90) \<or> (97 \<le> c \<and> c \<le> 122)"
  shows "isalnum c"
proof -
  have "alnum_ranges_0 = take 3 alnum_ranges_0 @ drop 3 alnum_ranges_0" by simp
  also have "take 3 alnum_ranges_0 = [(48, 57), (65, 90), (97, 122)]"
    by (simp add: alnum_ranges_0_def)
  finally have "in_ranges c alnum_ranges_0 = in_ranges c ([(48, 57), (65, 90), (97, 122)] @ drop 3 alnum_ranges_0)"
    by simp
  then show ?thesis using assms by (auto simp: isalnum_def alnum_ranges_def)
qed

lemma not_alnum_space_low:
  "\<not> isalnum 9" "\<not> isalnum 10" "\<not> isalnum 11" "\<not> isalnum 12" "\<not> isalnum 13"
  "\<not> isalnum 28" "\<not> isalnum 29" "\<not> isalnum 30" "\<not> isalnum 31" "\<not> isalnum 32"
  "\<not> isalnum 133" "\<not> isalnum 160"
  by (simp_all add: isalnum_def alnum_ranges_def alnum_ranges_0_def)

lemma not_alnum_space_mid: "\<not> isalnum 5760"
  by (simp add: isalnum_def alnum_ranges_def alnum_ranges_2_def)

lemma not_alnum_space_high:
  "\<not> isalnum 8192" "\<not> isalnum 8193" "\<not> isalnum 8194" "\<not> isalnum 8195"
  "\<not> isalnum 8196" "\<not> isalnum 8197" "\<not> isalnum 8198" "\<not> isalnum 8199"
  "\<not> isalnum 8200" "\<not> isalnum 8201" "\<not> isalnum 8202" "\<not> isalnum 8232"
  "\<not> isalnum 8233" "\<not> isalnum 8239" "\<not> isalnum 8287" "\<not> isalnum 12288"
  by (simp_all add: isalnum_def alnum_ranges_def alnum_ranges_3_def)

lemma isspace_not_alnum: "isspace c \<Longrightarrow> \<not> isalnum c"
  unfolding isspace_def
  using not_alnum_space_low not_alnum_space_mid not_alnum_space_high by auto

lemma isspace_kept: "kept c \<Longrightarrow> isspace c = (c = 32)"
  using isspace_not_alnum [of c] by (auto simp: kept_def isspace_def)

lemma set_strip: "set (strip s) \<subseteq> set s"
proof
  fix x assume "x \<in> set (strip s)"
  then have "x \<in> set (dropWhile isspace (rev (dropWhile isspace s)))"
    by (simp add: strip_def lstrip_def rstrip_def)
  then have "x \<in> set (dropWhile isspace s)"
    using set_dropWhileD by fastforce
  then show "x \<in> set s" by (rule set_dropWhileD)
qed

lemma sanitized_base_chars:
  assumes "c \<in> set (sanitized_base d)"
  shows "isalnum c \<or> c = 45 \<or> c = 95"
proof -
  from assms obtain x where x: "x \<in> set (strip (filter kept d))" "c = (if x = 32 then 95 else x)"
    by (auto simp: sanitized_base_def replace_def)
  then have "kept x" using set_strip by fastforce
  with x show ?thesis by (auto simp: kept_def)
qed

lemma sanitized_base_ascii:
  assumes "\<forall>c\<in>set d. c < 128" "c \<in> set (sanitized_base d)"
  shows "spec_charset c"
proof -
  from assms(2) obtain x where x: "x \<in> set (strip (filter kept d))" "c = (if x = 32 then 95 else x)"
    by (auto simp: sanitized_base_def replace_def)
  then have "x \<in> set d" using set_strip by fastforce
  then have "c < 128" using assms(1) x by auto
  then show ?thesis using sanitized_base_chars [OF assms(2)] isalnum_ascii [of c]
    by (auto simp: spec_charset_def)
qed

text \<open>
  Claim C3, as amended. The sanitized name is the sanitized caption followed by \<open>.mp4\<close>,
  and every character before the extension is alphanumeric in the sense of \<open>str.isalnum\<close>
  (which holds for letters and digits outside ASCII too), a hyphen or an underscore. For
  a caption of ASCII characters only, the characters before the extension are in the set
  \<open>[A-Za-z0-9 _-]\<close> of the specification.
\<close>

theorem sanitized_name_charset:
  "sanitized_name d = sanitized_base d @ ascii ''.mp4'' \<and>
   (\<forall>c\<in>set (sanitized_base d). isalnum c \<or> c = 45 \<or> c = 95) \<and>
   ((\<forall>c\<in>set d. c < 128) \<longrightarrow> (\<forall>c\<in>set (sanitized_base d). spec_charset c))"
  using sanitized_base_chars sanitized_base_ascii by (auto simp: sanitized_name_def)

lemma eval_my_trip: "sanitized_base (ascii ''My Trip! (2024)'') = ascii ''My_Trip_2024''"
  by (simp add: sanitized_base_def ascii_def kept_def isalnum_def alnum_ranges_def alnum_ranges_0_def
      strip_def lstrip_def rstrip_def isspace_def replace_def)

text \<open>Claim C3 on the caption \<open>My Trip! (2024)\<close> of the specification.\<close>

theorem sanitized_name_charset_witness:
  "list_all (\<lambda>c. c < 128) (ascii ''My Trip! (2024)'') \<and>
   sanitized_name (ascii ''My Trip! (2024)'') = ascii ''My_Trip_2024.mp4'' \<and>
   list_all spec_charset (sanitized_base (ascii ''My Trip! (2024)''))"
  using sanitized_name_charset [of "ascii ''My Trip! (2024)''"]
  by (simp add: eval_my_trip list_all_iff) (simp add: ascii_def)

text \<open>
  Claim C3 as stated fails: the caption made of the one letter U+00E9 (e with acute
  accent) is kept as it is, and that letter is outside \<open>[A-Za-z0-9 _-]\<close>.
\<close>

theorem sanitized_name_non_ascii:
  "sanitized_name [233] = [233] @ ascii ''.mp4'' \<and> \<not> spec_charset 233"
  by (simp add: sanitized_name_def sanitized_base_def kept_def isalnum_def alnum_ranges_def
      alnum_ranges_0_def strip_def lstrip_def rstrip_def isspace_def replace_def spec_charset_def)

lemma strip_kept:
  assumes "\<forall>c\<in>set d. kept c"
  shows "strip d = trim_spaces d"
proof -
  have 1: "dropWhile isspace d = dropWhile (\<lambda>c. c = 32) d"
    using assms by (intro dropWhile_cong) (auto simp: isspace_kept)
  have "\<forall>c\<in>set (rev (dropWhile (\<lambda>c. c = 32) d)). kept c"
    using assms by (auto dest: set_dropWhileD)
  then have "dropWhile isspace (rev (dropWhile (\<lambda>c. c = 32) d)) =
             dropWhile (\<lambda>c. c = 32) (rev (dropWhile (\<lambda>c. c = 32) d))"
    by (intro dropWhile_cong) (auto simp: isspace_kept)
  with 1 show ?thesis by (simp add: strip_def lstrip_def rstrip_def trim_spaces_def)
qed

lemma trim_spaces_id:
  assumes "take 1 d \<noteq> [32]" "take 1 (rev d) \<noteq> [32]"
  shows "trim_spaces d = d"
proof -
  have "dropWhile (\<lambda>c. c = 32) d = d" using assms(1) by (cases d) auto
  moreover have "dropWhile (\<lambda>c. c = 32) (rev d) = rev d" using assms(2) by (cases "rev d") auto
  ultimately show ?thesis by (simp add: trim_spaces_def)
qed

text \<open>
  Claim C4, as amended. For a caption whose characters are all alphanumeric, spaces,
  hyphens or underscores, the sanitized name is the caption without its leading and
  trailing spaces, with each remaining space replaced by an underscore and \<open>.mp4\<close>
  appended. When the caption neither starts nor ends with a space, this is the caption
  itself with spaces replaced.
\<close>

theorem sanitized_name_kept:
  assumes "\<forall>c\<in>set d. kept c"
  shows "sanitized_name d = replace 32 95 (trim_spaces d) @ ascii ''.mp4'' \<and>
         (take 1 d \<noteq> [32] \<and> take 1 (rev d) \<noteq> [32] \<longrightarrow>
            sanitized_name d = replace 32 95 d @ ascii ''.mp4'')"
proof -
  have "filter kept d = d" using assms by (simp add: filter_id_conv)
  then show ?thesis
    using strip_kept [OF assms] trim_spaces_id [of d]
    by (auto simp: sanitized_name_def sanitized_base_def)
qed

lemma spec_charset_kept: "spec_charset c \<Longrightarrow> kept c"
  using ascii_alnum [of c] by (auto simp: spec_charset_def kept_def)

text \<open>Claim C4 on the caption \<open>My Trip 2024\<close>.\<close>

theorem sanitized_name_kept_witness:
  "list_all kept (ascii ''My Trip 2024'') \<and>
   sanitized_name (ascii ''My Trip 2024'') = ascii ''My_Trip_2024.mp4''"
proof -
  have k: "\<forall>c\<in>set (ascii ''My Trip 2024''). kept c"
    by (auto intro!: spec_charset_kept simp: ascii_def spec_charset_def)
  show ?thesis
    using sanitized_name_kept [OF k] k
    by (simp add: list_all_iff) (simp add: ascii_def replace_def trim_spaces_def)
qed

text \<open>
  Claim C4 as stated fails: \<open>strip()\<close> removes the leading space of the caption \<open>" a"\<close>, so
  the sanitized name is \<open>a.mp4\<close> and not \<open>_a.mp4\<close>.
\<close>

theorem sanitized_name_leading_space:
  "list_all spec_charset (ascii '' a'') \<and>
   sanitized_name (ascii '' a'') = ascii ''a.mp4'' \<and>
   sanitized_name (ascii '' a'') \<noteq> replace 32 95 (ascii '' a'') @ ascii ''.mp4''"
  by (simp add: sanitized_name_def sanitized_base_def kept_def isalnum_def alnum_ranges_def
      alnum_ranges_0_def strip_def lstrip_def rstrip_def isspace_def replace_def spec_charset_def ascii_def)

section \<open>Temporary paths\<close>

lemma digits_nonempty: "digits n \<noteq> []"
  by (subst digits.simps) simp

lemma digits_range: "c \<in> set (digits n) \<Longrightarrow> 48 \<le> c \<and> c \<le> 57"
proof (induction n arbitrary: c rule: digits.induct)
  case (1 n)
  show ?case
  proof (cases "n < 10")
    case True
    with "1.prems" show ?thesis by (subst (asm) digits.simps) simp
  next
    case False
    from "1.prems" have "c \<in> set (digits (n div 10)) \<or> c = 48 + n mod 10"
      using False by (subst (asm) digits.simps) auto
    then show ?thesis using "1.IH" [OF False] by auto
  qed
qed

lemma digits_value: "foldl (\<lambda>a d. 10 * a + (d - 48)) 0 (digits n) = n"
proof (induction n rule: digits.induct)
  case (1 n)
  show ?case
  proof (cases "n < 10")
    case True
    then show ?thesis by (subst digits.simps) simp
  next
    case False
    then show ?thesis using "1.IH" [OF False] by (subst digits.simps) simp
  qed
qed

lemma digits_inj: 
  assumes "digits m = digits n" shows "m = n"
proof -
  have "foldl (\<lambda>a d. 10 * a + (d - 48)) 0 (digits m) = foldl (\<lambda>a d. 10 * a + (d - 48)) 0 (digits n)"
    using assms by simp
  then show ?thesis by (simp only: digits_value)
qed

lemma hd_digits: "hd (digits n) \<noteq> 45"
proof -
  have "hd (digits n) \<in> set (digits n)" using digits_nonempty by simp
  then have "48 \<le> hd (digits n)" using digits_range by blast
  then show ?thesis by simp
qed

lemma str_int_inj:
  assumes "str_int i = str_int j" shows "i = j"
proof (cases "i < 0")
  case True
  show ?thesis
  proof (cases "j < 0")
    case j: True
    with True assms have "digits (nat (- i)) = digits (nat (- j))" by (simp add: str_int_def)
    then have "nat (- i) = nat (- j)" by (rule digits_inj)
    with True j show ?thesis by simp
  next
    case False
    with True assms have "45 # digits (nat (- i)) = digits (nat j)" by (simp add: str_int_def)
    then have "hd (digits (nat j)) = 45" by (metis list.sel(1))
    then show ?thesis using hd_digits by blast
  qed
next
  case False
  show ?thesis
  proof (cases "j < 0")
    case True
    with False assms have "digits (nat i) = 45 # digits (nat (- j))" by (simp add: str_int_def)
    then have "hd (digits (nat i)) = 45" by simp
    then show ?thesis using hd_digits by blast
  next
    case j: False
    with False assms have "digits (nat i) = digits (nat j)" by (simp add: str_int_def)
    then have "nat i = nat j" by (rule digits_inj)
    with False j show ?thesis by simp
  qed
qed

lemma str_int_no_underscore: "95 \<notin> set (str_int i)"
  using digits_range [of 95] by (auto simp: str_int_def)

lemma takeWhile_upto: "a \<notin> set xs \<Longrightarrow> takeWhile (\<lambda>c. c \<noteq> a) (xs @ a # r) = xs"
  by (induction xs) auto

lemma join_inj:
  assumes "join a (t # x) = join a (t # y)" "t \<noteq> 47"
  shows "x = y"
  using assms by (auto simp: join_def split: if_splits)

text \<open>
  Claim C5. The temporary path is injective in the user identifier: two updates of
  different users never get the same temporary path, whatever the attachments' unique
  identifiers and the temporary directory are. The decimal form of the identifier ends
  at the first underscore of the file name, so it can be read back from the path.
\<close>

theorem temp_video_path_inj:
  assumes "uid1 \<noteq> uid2"
  shows "temp_video_path tmp uid1 fuid1 \<noteq> temp_video_path tmp uid2 fuid2"
proof
  assume "temp_video_path tmp uid1 fuid1 = temp_video_path tmp uid2 fuid2"
  then have "join tmp (116 # ascii ''emp_'' @ str_int uid1 @ 95 # fuid1 @ ascii ''.mp4'') =
             join tmp (116 # ascii ''emp_'' @ str_int uid2 @ 95 # fuid2 @ ascii ''.mp4'')"
    by (simp add: temp_video_path_def ascii_def)
  then have "ascii ''emp_'' @ str_int uid1 @ 95 # fuid1 @ ascii ''.mp4'' =
             ascii ''emp_'' @ str_int uid2 @ 95 # fuid2 @ ascii ''.mp4''"
    by (rule join_inj) simp
  then have "str_int uid1 @ 95 # (fuid1 @ ascii ''.mp4'') = str_int uid2 @ 95 # (fuid2 @ ascii ''.mp4'')"
    by simp
  then have "takeWhile (\<lambda>c. c \<noteq> 95) (str_int uid1 @ 95 # (fuid1 @ ascii ''.mp4'')) =
             takeWhile (\<lambda>c. c \<noteq> 95) (str_int uid2 @ 95 # (fuid2 @ ascii ''.mp4''))"
    by (rule arg_cong)
  then have "str_int uid1 = str_int uid2"
    by (simp only: takeWhile_upto [OF str_int_no_underscore])
  then show False using assms str_int_inj by blast
qed

text \<open>
  Claim C5 on the users 1 and 12, with unique identifiers chosen so that the two file
  names differ only in where the first underscore stands.
\<close>

theorem temp_video_path_inj_witness:
  "(1::int) \<noteq> 12 \<and>
   temp_video_path (ascii ''/tmp/video_bot_x'') 1 (ascii ''2_A'') = ascii ''/tmp/video_bot_x/temp_1_2_A.mp4'' \<and>
   temp_video_path (ascii ''/tmp/video_bot_x'') 12 (ascii ''A'') = ascii ''/tmp/video_bot_x/temp_12_A.mp4'' \<and>
   temp_video_path (ascii ''/tmp/video_bot_x'') 1 (ascii ''2_A'') \<noteq>
   temp_video_path (ascii ''/tmp/video_bot_x'') 12 (ascii ''A'')"
  using temp_video_path_inj [of 1 12 "ascii ''/tmp/video_bot_x''" "ascii ''2_A''" "ascii ''A''"]
  by (simp add: temp_video_path_def join_def str_int_def digits.simps ascii_def)

section \<open>The handlers on one update\<close>

lemma init_videos:
  "(case videos s of None \<Rightarrow> s\<lparr>videos := Some []\<rparr> | Some vs \<Rightarrow> s) = s\<lparr>videos := Some (collection s)\<rparr>"
  by (cases "videos s") (simp_all add: collection_def)

lemma handle_video_no_file:
  assumes "video_file (message u) = None"
  shows "handle_video e u s = s\<lparr>videos := Some (collection s), sent := sent s @ [Text no_video_text]\<rparr>"
  using assms by (simp add: handle_video_def init_videos reply_text_def)

lemma handle_video_no_caption:
  assumes "video_file (message u) \<noteq> None" "caption (message u) = None \<or> caption (message u) = Some []"
  shows "handle_video e u s = s\<lparr>videos := Some (collection s), sent := sent s @ [Text no_caption_text]\<rparr>"
  using assms by (auto simp add: handle_video_def init_videos reply_text_def)

lemma handle_video_accepted:
  assumes "video_file (message u) = Some vf" "caption (message u) = Some d" "d \<noteq> []"
  shows "handle_video e u s =
           s\<lparr>videos := Some (collection s @
                 [\<lparr>path = temp_video_path (TEMP_DIR e) (effective_user_id u) (file_unique_id vf),
                   name = sanitized_name d\<rparr>]),
             disk := (disk s)(temp_video_path (TEMP_DIR e) (effective_user_id u) (file_unique_id vf)
                        \<mapsto> Blob (remote_file e (file_id vf))),
             sent := sent s @ [Text (saved_text (sanitized_name d) (Suc (length (collection s))))]\<rparr>"
  using assms by (simp add: handle_video_def init_videos reply_text_def Let_def collection_def)

text \<open>
  Claim C7. A message with no attachment is answered with the warning about the video
  file, and one with an attachment but no caption, or an empty one, with the warning about
  the caption; in both cases the collection and the disk stay as they were. A message
  with an attachment and a non-empty caption appends exactly one record, made of the
  temporary path and the sanitized name, and is answered with the confirmation, which
  holds the size of the collection after the append.
\<close>

theorem handle_video_contract:
  "(video_file (message u) = None \<longrightarrow>
      sent (handle_video e u s) = sent s @ [Text no_video_text] \<and>
      collection (handle_video e u s) = collection s \<and>
      disk (handle_video e u s) = disk s) \<and>
   (video_file (message u) \<noteq> None \<and> (caption (message u) = None \<or> caption (message u) = Some []) \<longrightarrow>
      sent (handle_video e u s) = sent s @ [Text no_caption_text] \<and>
      collection (handle_video e u s) = collection s \<and>
      disk (handle_video e u s) = disk s) \<and>
   (video_file (message u) = Some vf \<and> caption (message u) = Some d \<and> d \<noteq> [] \<longrightarrow>
      collection (handle_video e u s) =
        collection s @
          [\<lparr>path = temp_video_path (TEMP_DIR e) (effective_user_id u) (file_unique_id vf),
            name = sanitized_name d\<rparr>] \<and>
      sent (handle_video e u s) =
        sent s @
          [Text ([9989] @ ascii '' Video saved as: '' @ sanitized_name d @ [10] @
                 ascii ''Total videos collected: '' @
                 str_int (int (length (collection (handle_video e u s)))) @ [10] @
                 ascii ''Send more videos or /zip when done'')])"
proof (intro conjI impI)
  assume a: "video_file (message u) = None"
  show "sent (handle_video e u s) = sent s @ [Text no_video_text]"
    and "collection (handle_video e u s) = collection s"
    and "disk (handle_video e u s) = disk s"
    by (simp_all add: handle_video_no_file [OF a] collection_def)
next
  assume a: "video_file (message u) \<noteq> None \<and> (caption (message u) = None \<or> caption (message u) = Some [])"
  then have h: "handle_video e u s = s\<lparr>videos := Some (collection s), sent := sent s @ [Text no_caption_text]\<rparr>"
    by (intro handle_video_no_caption) auto
  show "sent (handle_video e u s) = sent s @ [Text no_caption_text]"
    and "collection (handle_video e u s) = collection s"
    and "disk (handle_video e u s) = disk s"
    by (simp_all add: h collection_def)
next
  assume a: "video_file (message u) = Some vf \<and> caption (message u) = Some d \<and> d \<noteq> []"
  then have h: "handle_video e u s =
           s\<lparr>videos := Some (collection s @
                 [\<lparr>path = temp_video_path (TEMP_DIR e) (effective_user_id u) (file_unique_id vf),
                   name = sanitized_name d\<rparr>]),
             disk := (disk s)(temp_video_path (TEMP_DIR e) (effective_user_id u) (file_unique_id vf)
                        \<mapsto> Blob (remote_file e (file_id vf))),
             sent := sent s @ [Text (saved_text (sanitized_name d) (Suc (length (collection s))))]\<rparr>"
    by (intro handle_video_accepted) auto
  show "collection (handle_video e u s) =
        collection s @
          [\<lparr>path = temp_video_path (TEMP_DIR e) (effective_user_id u) (file_unique_id vf),
            name = sanitized_name d\<rparr>]"
    by (simp add: h collection_def)
  show "sent (handle_video e u s) =
        sent s @
          [Text ([9989] @ ascii '' Video saved as: '' @ sanitized_name d @ [10] @
                 ascii ''Total videos collected: '' @
                 str_int (int (length (collection (handle_video e u s)))) @ [10] @
                 ascii ''Send more videos or /zip when done'')]"
    by (simp add: h saved_text_def collection_def)
qed

text \<open>
  Claim C9. On a session whose key \<open>'videos'\<close> was never set, \<open>handle_video\<close> sets the key:
  the result always has a collection. It does exactly what it does on a session whose
  collection is the empty list: a message that is not accepted leaves the empty list and
  gets its warning, an accepted one leaves the list of its one record and gets the
  confirmation with the count 1.
\<close>

theorem handle_video_uninitialized:
  "handle_video e u (s\<lparr>videos := None\<rparr>) = handle_video e u (s\<lparr>videos := Some []\<rparr>) \<and>
   videos (handle_video e u (s\<lparr>videos := None\<rparr>)) \<noteq> None \<and>
   (\<not> accepted (message u) \<longrightarrow>
      videos (handle_video e u (s\<lparr>videos := None\<rparr>)) = Some [] \<and>
      sent (handle_video e u (s\<lparr>videos := None\<rparr>)) =
        sent s @ [Text (if video_file (message u) = None then no_video_text else no_caption_text)] \<and>
      disk (handle_video e u (s\<lparr>videos := None\<rparr>)) = disk s) \<and>
   (accepted (message u) \<longrightarrow>
      videos (handle_video e u (s\<lparr>videos := None\<rparr>)) =
        Some [pending e (effective_user_id u) (message u)] \<and>
      sent (handle_video e u (s\<lparr>videos := None\<rparr>)) =
        sent s @ [Text (saved_text (sanitized_name (the (caption (message u)))) 1)])"
proof -
  have c: "collection (s\<lparr>videos := None\<rparr>) = []" by (simp add: collection_def)
  have 1: "handle_video e u (s\<lparr>videos := None\<rparr>) = handle_video e u (s\<lparr>videos := Some []\<rparr>)"
    by (simp add: handle_video_def collection_def reply_text_def Let_def split: option.splits)
  have 2: "videos (handle_video e u (s\<lparr>videos := None\<rparr>)) = Some [] \<and>
      sent (handle_video e u (s\<lparr>videos := None\<rparr>)) =
        sent s @ [Text (if video_file (message u) = None then no_video_text else no_caption_text)] \<and>
      disk (handle_video e u (s\<lparr>videos := None\<rparr>)) = disk s"
    if "\<not> accepted (message u)"
  proof (cases "video_file (message u) = None")
    case True
    then show ?thesis by (simp add: handle_video_no_file c)
  next
    case False
    then have "caption (message u) = None \<or> caption (message u) = Some []"
      using that by (simp add: accepted_def)
    then show ?thesis using False by (auto simp add: handle_video_no_caption c)
  qed
  have 3: "videos (handle_video e u (s\<lparr>videos := None\<rparr>)) =
        Some [pending e (effective_user_id u) (message u)] \<and>
      sent (handle_video e u (s\<lparr>videos := None\<rparr>)) =
        sent s @ [Text (saved_text (sanitized_name (the (caption (message u)))) 1)]"
    if "accepted (message u)"
  proof -
    from that obtain vf d where a: "video_file (message u) = Some vf" "caption (message u) = Some d" "d \<noteq> []"
      by (auto simp: accepted_def)
    show ?thesis by (simp add: handle_video_accepted [OF a] c pending_def a)
  qed
  have 4: "videos (handle_video e u (s\<lparr>videos := None\<rparr>)) \<noteq> None"
    using 2 3 by (cases "accepted (message u)") auto
  show ?thesis using 1 2 3 4 by blast
qed

text \<open>
  Claim C6. When the collection is absent or empty, \<open>create_zip\<close> replies with the warning
  and changes neither the disk nor the collection.
\<close>

theorem create_zip_empty:
  assumes "videos s = None \<or> videos s = Some []"
  shows "sent (create_zip e f u s) = sent s @ [Text no_videos_text] \<and>
         disk (create_zip e f u s) = disk s \<and>
         videos (create_zip e f u s) = videos s"
  using assms by (auto simp: create_zip_def reply_text_def)

text \<open>
  Claim C10. \<open>start\<close> sets the collection to the empty list and leaves the disk as it
  is: it removes no file, so the temporary files of records collected before stay.
\<close>

theorem start_resets:
  "videos (start u s) = Some [] \<and> disk (start u s) = disk s \<and>
   sent (start u s) = sent s @ [Text start_text]"
  by (simp add: start_def reply_text_def)

section \<open>Cleaning up and building the archive\<close>

lemma remove_if_exists_eq:
  "remove_if_exists f p d = (if remove_fault f p = None then d(p := None) else d)"
  by (auto simp: remove_if_exists_def os_path_exists_def os_remove_def split: option.splits)

lemma cleanup_files_eq:
  "cleanup_files f vs zp d =
     (\<lambda>p. if (p = zp \<or> p \<in> path ` set vs) \<and> remove_fault f p = None then None else d p)"
  by (induction vs arbitrary: d) (auto simp: remove_if_exists_eq fun_eq_iff)

lemma zipf_write_frame:
  assumes "zipf_write f zp src arc d = Inr d'" "p \<noteq> zp"
  shows "d' p = d p"
  using assms by (auto simp: zipf_write_def split: option.splits)

lemma write_videos_frame:
  assumes "p \<noteq> zp"
  shows "snd (write_videos f zp vs d) p = d p"
  using assms
proof (induction vs arbitrary: d)
  case Nil
  then show ?case by simp
next
  case (Cons v vs)
  show ?case
  proof (cases "zipf_write f zp (path v) (name v) d")
    case (Inl ex)
    then show ?thesis by simp
  next
    case (Inr d')
    then show ?thesis using Cons zipf_write_frame [OF Inr] by simp
  qed
qed

lemma build_and_send_frame:
  assumes "p \<noteq> zp"
  shows "disk (snd (build_and_send f zp fname vs s)) p = disk s p"
proof -
  have "snd (write_videos f zp vs ((disk s)(zp \<mapsto> Archive []))) p = disk s p"
    using write_videos_frame [OF assms] assms by simp
  then show ?thesis
    by (auto simp: build_and_send_def split: option.splits prod.splits)
qed

lemma build_and_send_sent:
  "sent (snd (build_and_send f zp fname vs s)) =
     (case fst (build_and_send f zp fname vs s) of
        Some ex \<Rightarrow> sent s
      | None \<Rightarrow> sent s @ [Document (the (snd (write_videos f zp vs ((disk s)(zp \<mapsto> Archive []))) zp))
                             zip_caption fname])"
  by (auto simp: build_and_send_def split: option.splits prod.splits)

lemma build_and_send_raises:
  "fst (build_and_send f zp fname vs s) = fst (build_and_send f zp fname' vs s)"
  by (auto simp: build_and_send_def split: option.splits prod.splits)

lemma create_zip_nonempty:
  assumes "videos s = Some vs" "vs \<noteq> []"
    and zp_def: "zp = zip_path_of (TEMP_DIR e) (effective_user_id u)"
    and fname_def: "fname = fst (splitext (name (hd vs))) @ ascii ''.zip''"
  shows "videos (create_zip e f u s) = Some []"
    and "disk (create_zip e f u s) =
          (\<lambda>p. if (p = zp \<or> p \<in> path ` set vs) \<and> remove_fault f p = None then None
               else disk (snd (build_and_send f zp fname vs s)) p)"
    and "sent (create_zip e f u s) =
          (case fst (build_and_send f zp fname vs s) of
             Some ex \<Rightarrow> sent s @ [Text (zip_error_text ex)]
           | None \<Rightarrow> sent (snd (build_and_send f zp fname vs s)))"
proof -
  obtain v vs' where vs: "vs = v # vs'" using assms(2) by (cases vs) auto
  obtain r s1 where b: "build_and_send f zp fname vs s = (r, s1)" by (cases "build_and_send f zp fname vs s")
  have cz: "create_zip e f u s =
      (case r of
         None \<Rightarrow> s1\<lparr>disk := cleanup_files f vs zp (disk s1), videos := Some []\<rparr>
       | Some ex \<Rightarrow> (reply_text (zip_error_text ex) s1)
            \<lparr>disk := cleanup_files f vs zp (disk (reply_text (zip_error_text ex) s1)), videos := Some []\<rparr>)"
    using assms(1) b by (simp add: create_zip_def vs zp_def fname_def Let_def split: option.splits)
  show "videos (create_zip e f u s) = Some []"
    by (simp add: cz split: option.splits)
  show "disk (create_zip e f u s) =
          (\<lambda>p. if (p = zp \<or> p \<in> path ` set vs) \<and> remove_fault f p = None then None
               else disk (snd (build_and_send f zp fname vs s)) p)"
    by (auto simp: cz b cleanup_files_eq reply_text_def split: option.splits)
  have "r = Some ex \<Longrightarrow> sent s1 = sent s" for ex
    using build_and_send_sent [of f zp fname vs s] b by simp
  then show "sent (create_zip e f u s) =
          (case fst (build_and_send f zp fname vs s) of
             Some ex \<Rightarrow> sent s @ [Text (zip_error_text ex)]
           | None \<Rightarrow> sent (snd (build_and_send f zp fname vs s)))"
    by (auto simp: cz b reply_text_def split: option.splits)
qed


lemma write_videos_missing:
  assumes "v \<in> set vs" "d (path v) = None" "path v \<noteq> zp"
  shows "fst (write_videos f zp vs d) \<noteq> None"
  using assms
proof (induction vs arbitrary: d)
  case Nil
  then show ?case by simp
next
  case (Cons w ws)
  show ?case
  proof (cases "zipf_write f zp (path w) (name w) d")
    case (Inl ex)
    then show ?thesis by simp
  next
    case (Inr d')
    then have "d (path w) \<noteq> None" by (auto simp: zipf_write_def split: option.splits)
    then have "v \<in> set ws" using Cons.prems by auto
    moreover have "d' (path v) = None"
      using zipf_write_frame [OF Inr Cons.prems(3)] Cons.prems(2) by simp
    ultimately show ?thesis using Cons.IH Cons.prems(3) Inr by simp
  qed
qed

lemma write_videos_ok:
  assumes "\<forall>v\<in>set vs. d (path v) \<noteq> None \<and> path v \<noteq> zp \<and> write_fault f (path v) = None"
      and "d zp = Some (Archive es)"
  shows "write_videos f zp vs d =
           (None, d(zp \<mapsto> Archive (es @ map (\<lambda>v. (name v, the (d (path v)))) vs)))"
  using assms
proof (induction vs arbitrary: d es)
  case Nil
  then show ?case by (simp add: fun_upd_idem)
next
  case (Cons v vs)
  then obtain c where c: "d (path v) = Some c" by auto
  define d' where "d' = d(zp \<mapsto> Archive (es @ [(name v, c)]))"
  have w: "zipf_write f zp (path v) (name v) d = Inr d'"
    using Cons.prems c by (simp add: zipf_write_def d'_def archive_entries_def)
  have same: "\<And>x. x \<in> set vs \<Longrightarrow> d' (path x) = d (path x)"
    using Cons.prems by (simp add: d'_def)
  have 1: "\<forall>x\<in>set vs. d' (path x) \<noteq> None \<and> path x \<noteq> zp \<and> write_fault f (path x) = None"
    using Cons.prems same by simp
  have 2: "d' zp = Some (Archive (es @ [(name v, c)]))" by (simp add: d'_def)
  have meq: "map (\<lambda>v. (name v, the (d' (path v)))) vs = map (\<lambda>v. (name v, the (d (path v)))) vs"
    by (rule map_cong) (simp_all add: same)
  have upd: "d'(zp \<mapsto> X) = d(zp \<mapsto> X)" for X
    by (simp add: d'_def)
  have "write_videos f zp (v # vs) d = write_videos f zp vs d'"
    using w by simp
  also have "\<dots> = (None, d'(zp \<mapsto> Archive ((es @ [(name v, c)]) @
                       map (\<lambda>v. (name v, the (d' (path v)))) vs)))"
    by (rule Cons.IH [OF 1 2])
  also have "\<dots> = (None, d(zp \<mapsto> Archive (es @ map (\<lambda>v. (name v, the (d (path v)))) (v # vs))))"
    by (simp only: meq upd) (simp add: c)
  finally show ?case .
qed

lemma build_and_send_ok:
  assumes "open_fault f = None" "send_fault f = None"
      and "\<forall>v\<in>set vs. disk s (path v) \<noteq> None \<and> path v \<noteq> zp \<and> write_fault f (path v) = None"
  shows "build_and_send f zp fname vs s =
           (None, s\<lparr>disk := (disk s)(zp \<mapsto> Archive (map (\<lambda>v. (name v, the (disk s (path v)))) vs)),
                    sent := sent s @ [Document (Archive (map (\<lambda>v. (name v, the (disk s (path v)))) vs))
                                        zip_caption fname]\<rparr>)"
proof -
  define d0 where "d0 = (disk s)(zp \<mapsto> Archive [])"
  have 1: "\<forall>v\<in>set vs. d0 (path v) \<noteq> None \<and> path v \<noteq> zp \<and> write_fault f (path v) = None"
    using assms(3) by (simp add: d0_def)
  have 2: "d0 zp = Some (Archive [])" by (simp add: d0_def)
  have meq: "map (\<lambda>v. (name v, the (d0 (path v)))) vs = map (\<lambda>v. (name v, the (disk s (path v)))) vs"
    using assms(3) by (intro map_cong) (simp_all add: d0_def)
  have upd: "d0(zp \<mapsto> X) = (disk s)(zp \<mapsto> X)" for X
    by (simp add: d0_def)
  have "write_videos f zp vs d0 =
          (None, d0(zp \<mapsto> Archive ([] @ map (\<lambda>v. (name v, the (d0 (path v)))) vs)))"
    by (rule write_videos_ok [OF 1 2])
  then have "write_videos f zp vs d0 =
          (None, (disk s)(zp \<mapsto> Archive (map (\<lambda>v. (name v, the (disk s (path v)))) vs)))"
    by (simp only: meq upd append_Nil)
  then show ?thesis
    using assms(1,2) by (simp add: build_and_send_def flip: d0_def)
qed

section \<open>A session of accepted messages\<close>

lemma build_and_send_send_fault:
  assumes "open_fault f = None" "send_fault f = Some ex"
      and "\<forall>v\<in>set vs. disk s (path v) \<noteq> None \<and> path v \<noteq> zp \<and> write_fault f (path v) = None"
  shows "fst (build_and_send f zp fname vs s) = Some ex"
proof -
  define d0 where "d0 = (disk s)(zp \<mapsto> Archive [])"
  have 1: "\<forall>v\<in>set vs. d0 (path v) \<noteq> None \<and> path v \<noteq> zp \<and> write_fault f (path v) = None"
    using assms(3) by (simp add: d0_def)
  have 2: "d0 zp = Some (Archive [])" by (simp add: d0_def)
  have "write_videos f zp vs d0 =
          (None, d0(zp \<mapsto> Archive ([] @ map (\<lambda>v. (name v, the (d0 (path v)))) vs)))"
    by (rule write_videos_ok [OF 1 2])
  then show ?thesis
    using assms(1,2) by (simp add: build_and_send_def flip: d0_def)
qed

lemma join_relative_inj:
  assumes "join a x = join a y" "take 1 x \<noteq> [47]" "take 1 y \<noteq> [47]"
  shows "x = y"
  using assms by (auto simp: join_def split: if_splits)

lemma temp_ne_zip: "temp_video_path tmp uid fuid \<noteq> zip_path_of tmp uid'"
proof
  assume "temp_video_path tmp uid fuid = zip_path_of tmp uid'"
  then have "ascii ''temp_'' @ str_int uid @ [95] @ fuid @ ascii ''.mp4'' =
             ascii ''videos_'' @ str_int uid' @ ascii ''.zip''"
    unfolding temp_video_path_def zip_path_of_def
    by (rule join_relative_inj) (simp_all add: ascii_def)
  then show False by (simp add: ascii_def)
qed

lemma ingest_Cons:
  "ingest e uid (m # ms) s = ingest e uid ms (handle_video e \<lparr>message = m, effective_user_id = uid\<rparr> s)"
  by (simp add: ingest_def)

lemma handle_video_pending:
  assumes "accepted m"
  shows "handle_video e \<lparr>message = m, effective_user_id = uid\<rparr> s =
           s\<lparr>videos := Some (collection s @ [pending e uid m]),
             disk := (disk s)(path (pending e uid m) \<mapsto> Blob (remote_file e (file_id (the (video_file m))))),
             sent := sent s @ [Text (saved_text (name (pending e uid m)) (Suc (length (collection s))))]\<rparr>"
proof -
  from assms obtain vf d where "video_file m = Some vf" "caption m = Some d" "d \<noteq> []"
    by (auto simp: accepted_def)
  then show ?thesis
    using handle_video_accepted [of "\<lparr>message = m, effective_user_id = uid\<rparr>" vf d e s]
    by (simp add: pending_def)
qed

lemma ingest_collection:
  assumes "\<forall>m\<in>set ms. accepted m"
  shows "collection (ingest e uid ms s) = collection s @ map (pending e uid) ms"
  using assms
proof (induction ms arbitrary: s)
  case Nil
  then show ?case by (simp add: ingest_def)
next
  case (Cons m ms)
  then show ?case
    by (simp add: ingest_Cons handle_video_pending collection_def)
qed

lemma ingest_videos:
  assumes "\<forall>m\<in>set ms. accepted m" "ms \<noteq> [] \<or> videos s \<noteq> None"
  shows "videos (ingest e uid ms s) = Some (collection (ingest e uid ms s))"
  using assms
proof (induction ms arbitrary: s)
  case Nil
  then show ?case by (auto simp: ingest_def collection_def)
next
  case (Cons m ms)
  then show ?case
    by (simp add: ingest_Cons handle_video_pending)
qed

lemma ingest_disk_other:
  assumes "\<forall>m\<in>set ms. accepted m" "p \<notin> (\<lambda>m. path (pending e uid m)) ` set ms"
  shows "disk (ingest e uid ms s) p = disk s p"
  using assms
proof (induction ms arbitrary: s)
  case Nil
  then show ?case by (simp add: ingest_def)
next
  case (Cons m ms)
  then show ?case
    by (simp add: ingest_Cons handle_video_pending)
qed

lemma ingest_disk_keeps:
  assumes "\<forall>m\<in>set ms. accepted m" "disk s p \<noteq> None"
  shows "disk (ingest e uid ms s) p \<noteq> None"
  using assms
proof (induction ms arbitrary: s)
  case Nil
  then show ?case by (simp add: ingest_def)
next
  case (Cons m ms)
  then show ?case
    by (simp add: ingest_Cons handle_video_pending)
qed

lemma ingest_disk_written:
  assumes "\<forall>m\<in>set ms. accepted m" "m \<in> set ms"
  shows "disk (ingest e uid ms s) (path (pending e uid m)) \<noteq> None"
  using assms
proof (induction ms arbitrary: s)
  case Nil
  then show ?case by simp
next
  case (Cons x ms)
  show ?case
  proof (cases "m \<in> set ms")
    case True
    then show ?thesis using Cons by (simp add: ingest_Cons)
  next
    case False
    then have "m = x" using Cons.prems by simp
    then have "disk (handle_video e \<lparr>message = x, effective_user_id = uid\<rparr> s) (path (pending e uid m)) \<noteq> None"
      using Cons.prems by (simp add: handle_video_pending)
    then show ?thesis using Cons.prems by (simp add: ingest_Cons ingest_disk_keeps)
  qed
qed

section \<open>create\_zip on a collection that is not empty\<close>

lemma build_and_send_missing:
  assumes "v \<in> set vs" "disk s (path v) = None" "path v \<noteq> zp" "open_fault f = None"
  shows "fst (build_and_send f zp fname vs s) \<noteq> None"
proof -
  have "((disk s)(zp \<mapsto> Archive [])) (path v) = None"
    using assms(2,3) by simp
  then have "fst (write_videos f zp vs ((disk s)(zp \<mapsto> Archive []))) \<noteq> None"
    using assms(1,3) by (intro write_videos_missing)
  then show ?thesis
    using assms(4) by (auto simp: build_and_send_def split: prod.splits option.splits)
qed

lemma create_zip_disk:
  assumes "videos s = Some vs" "vs \<noteq> []"
  shows "p \<noteq> zip_path_of (TEMP_DIR e) (effective_user_id u) \<Longrightarrow>
           disk (create_zip e f u s) p =
             (if p \<in> path ` set vs \<and> remove_fault f p = None then None else disk s p)"
    and "remove_fault f (zip_path_of (TEMP_DIR e) (effective_user_id u)) = None \<Longrightarrow>
           disk (create_zip e f u s) (zip_path_of (TEMP_DIR e) (effective_user_id u)) = None"
  using build_and_send_frame [of p "zip_path_of (TEMP_DIR e) (effective_user_id u)" f _ vs s]
  by (simp_all add: create_zip_nonempty(2) [OF assms refl refl])

text \<open>
  Claim C1, as amended. Whatever the collection (not empty) and whatever exception the
  \<open>try\<close> block raises, while the archive is opened, written or sent, \<open>create_zip\<close> ends
  normally: the user gets the reply \<open>Error creating zip file:\<close> followed by the text of the
  exception, and the collection is the empty list. Of the files, \<open>cleanup_files\<close> reaches
  the sources of the records in the collection and the archive of the session: each of
  them is gone from disk unless its removal raises, in which case it stays; every other
  file is left as it was, a temporary file of the session that is no longer in the
  collection included. When the removal of the archive does not fail, the collection
  and the disk are the same as after a build from the same state that succeeds (under
  faults \<open>f'\<close> with the same failing removals).
\<close>

theorem create_zip_exception:
  assumes "videos s = Some vs" "vs \<noteq> []"
      and "fst (build_and_send f (zip_path_of (TEMP_DIR e) (effective_user_id u))
                 (fst (splitext (name (hd vs))) @ ascii ''.zip'') vs s) = Some ex"
  shows "sent (create_zip e f u s) =
           sent s @ [Text ([9888, 65039] @ ascii '' Error creating zip file: '' @ str_exn ex)] \<and>
         videos (create_zip e f u s) = Some [] \<and>
         (\<forall>v\<in>set vs. remove_fault f (path v) = None \<longrightarrow>
            disk (create_zip e f u s) (path v) = None) \<and>
         (remove_fault f (zip_path_of (TEMP_DIR e) (effective_user_id u)) = None \<longrightarrow>
            disk (create_zip e f u s) (zip_path_of (TEMP_DIR e) (effective_user_id u)) = None) \<and>
         (\<forall>p. p \<noteq> zip_path_of (TEMP_DIR e) (effective_user_id u) \<and>
              (p \<notin> path ` set vs \<or> remove_fault f p \<noteq> None) \<longrightarrow>
            disk (create_zip e f u s) p = disk s p) \<and>
         (fst (build_and_send f' (zip_path_of (TEMP_DIR e) (effective_user_id u))
                 (fst (splitext (name (hd vs))) @ ascii ''.zip'') vs s) = None \<and>
          remove_fault f' = remove_fault f \<and>
          remove_fault f (zip_path_of (TEMP_DIR e) (effective_user_id u)) = None \<longrightarrow>
            videos (create_zip e f' u s) = videos (create_zip e f u s) \<and>
            disk (create_zip e f' u s) = disk (create_zip e f u s))"
proof -
  define zp where "zp = zip_path_of (TEMP_DIR e) (effective_user_id u)"
  note r = create_zip_nonempty [OF assms(1,2) refl refl]
  note d = create_zip_disk [OF assms(1,2), of _ e u, folded zp_def]
  have 1: "sent (create_zip e f u s) =
           sent s @ [Text ([9888, 65039] @ ascii '' Error creating zip file: '' @ str_exn ex)]"
    using assms(3) by (simp add: r zip_error_text_def)
  have 2: "videos (create_zip e f' u s) = Some []" for f' by (simp add: r)
  have 3: "disk (create_zip e f u s) (path v) = None"
    if "v \<in> set vs" "remove_fault f (path v) = None" for v
    using that d(1) [of "path v" f] d(2) [of f] by (cases "path v = zp") auto
  have 4: "disk (create_zip e f u s) p = disk s p"
    if "p \<noteq> zp \<and> (p \<notin> path ` set vs \<or> remove_fault f p \<noteq> None)" for p
    using that d(1) [of p f] by auto
  have 5: "disk (create_zip e f' u s) = disk (create_zip e f u s)"
    if "remove_fault f' = remove_fault f" "remove_fault f zp = None"
  proof (rule ext)
    fix p show "disk (create_zip e f' u s) p = disk (create_zip e f u s) p"
      using that d(1) [of p f] d(1) [of p f'] d(2) [of f] d(2) [of f'] by (cases "p = zp") auto
  qed
  show ?thesis
    unfolding zp_def [symmetric] using 1 2 3 4 5 d(2) [of f] by auto
qed

section \<open>A session from the first video to the archive\<close>

text \<open>
  Claim C2, as amended. In a session whose collection is absent or empty, let the user
  send \<open>N \<ge> 1\<close> messages that each carry an attachment and a non-empty caption, the
  captions pairwise distinct, and then ask for the archive, with no fault while it is
  opened, written and sent. The archive sent has exactly one entry per message, in the
  order of the messages, each named by the sanitized caption; afterwards the collection is
  the empty list. The temporary files of the messages and the archive are gone from
  disk, each unless its removal raises; every other file is left as it was before the
  session, temporary files of the same user that an earlier \<open>start\<close> dropped from the
  collection included.
\<close>

theorem ingest_then_create_zip:
  assumes "videos s = None \<or> videos s = Some []"
      and "ms \<noteq> []"
      and "\<forall>m\<in>set ms. accepted m"
      and "distinct (map caption ms)"
      and "effective_user_id u = uid"
      and "open_fault f = None" "send_fault f = None"
      and "\<forall>m\<in>set ms. write_fault f (path (pending e uid m)) = None"
  shows "sent (create_zip e f u (ingest e uid ms s)) =
           sent (ingest e uid ms s) @
             [Document
                (Archive (map (\<lambda>m. (sanitized_name (the (caption m)),
                                     the (disk (ingest e uid ms s) (path (pending e uid m))))) ms))
                zip_caption
                (fst (splitext (sanitized_name (the (caption (hd ms))))) @ ascii ''.zip'')] \<and>
         videos (create_zip e f u (ingest e uid ms s)) = Some [] \<and>
         (\<forall>m\<in>set ms. remove_fault f (path (pending e uid m)) = None \<longrightarrow>
            disk (create_zip e f u (ingest e uid ms s)) (path (pending e uid m)) = None) \<and>
         (remove_fault f (zip_path_of (TEMP_DIR e) uid) = None \<longrightarrow>
            disk (create_zip e f u (ingest e uid ms s)) (zip_path_of (TEMP_DIR e) uid) = None) \<and>
         (\<forall>p. p \<noteq> zip_path_of (TEMP_DIR e) uid \<and> p \<notin> (\<lambda>m. path (pending e uid m)) ` set ms \<longrightarrow>
            disk (create_zip e f u (ingest e uid ms s)) p = disk s p)"
proof -
  define s1 where "s1 = ingest e uid ms s"
  define vs where "vs = map (pending e uid) ms"
  define zp where "zp = zip_path_of (TEMP_DIR e) (effective_user_id u)"
  define fname where "fname = fst (splitext (name (hd vs))) @ ascii ''.zip''"
  have zpu: "zip_path_of (TEMP_DIR e) uid = zp" using assms(5) by (simp add: zp_def)
  have "collection s = []" using assms(1) by (auto simp: collection_def)
  then have col: "collection s1 = vs"
    using ingest_collection [OF assms(3)] by (simp add: s1_def vs_def)
  have v: "videos s1 = Some vs"
    using ingest_videos [OF assms(3), of s e uid] assms(2) col by (simp add: s1_def)
  have ne: "vs \<noteq> []" using assms(2) by (simp add: vs_def)
  have paths: "path ` set vs = (\<lambda>m. path (pending e uid m)) ` set ms"
    by (simp add: vs_def image_image)
  have src: "\<forall>v\<in>set vs. disk s1 (path v) \<noteq> None \<and> path v \<noteq> zp \<and> write_fault f (path v) = None"
  proof
    fix v assume "v \<in> set vs"
    then obtain m where m: "m \<in> set ms" "v = pending e uid m" by (auto simp: vs_def)
    have "disk s1 (path v) \<noteq> None"
      using ingest_disk_written [OF assms(3) m(1)] by (simp add: s1_def m(2))
    moreover have "path v \<noteq> zp"
      by (simp add: m(2) pending_def zp_def temp_ne_zip)
    ultimately show "disk s1 (path v) \<noteq> None \<and> path v \<noteq> zp \<and> write_fault f (path v) = None"
      using assms(8) m by simp
  qed
  have b: "build_and_send f zp fname vs s1 =
           (None, s1\<lparr>disk := (disk s1)(zp \<mapsto> Archive (map (\<lambda>v. (name v, the (disk s1 (path v)))) vs)),
                    sent := sent s1 @ [Document (Archive (map (\<lambda>v. (name v, the (disk s1 (path v)))) vs))
                                        zip_caption fname]\<rparr>)"
    using src assms(6,7) by (intro build_and_send_ok)
  note r = create_zip_nonempty [OF v ne zp_def fname_def, of f]
  note d = create_zip_disk [OF v ne, of _ e u, folded zp_def]
  have hdn: "name (hd vs) = sanitized_name (the (caption (hd ms)))"
    using assms(2) by (cases ms) (simp_all add: vs_def pending_def)
  have es: "map (\<lambda>v. (name v, the (disk s1 (path v)))) vs =
            map (\<lambda>m. (sanitized_name (the (caption m)), the (disk s1 (path (pending e uid m))))) ms"
    by (simp add: vs_def pending_def comp_def)
  have "sent (create_zip e f u s1) =
           sent s1 @ [Document (Archive (map (\<lambda>v. (name v, the (disk s1 (path v)))) vs)) zip_caption fname]"
    using r(3) by (simp add: b)
  then have 1: "sent (create_zip e f u s1) =
           sent s1 @ [Document (Archive (map (\<lambda>m. (sanitized_name (the (caption m)),
                                     the (disk s1 (path (pending e uid m))))) ms))
                zip_caption (fst (splitext (sanitized_name (the (caption (hd ms))))) @ ascii ''.zip'')]"
    by (simp add: es fname_def hdn)
  have ne_zp: "path (pending e uid m) \<noteq> zp" for m
    by (simp add: pending_def zp_def temp_ne_zip)
  have 3: "disk (create_zip e f u s1) (path (pending e uid m)) = None"
    if "m \<in> set ms" "remove_fault f (path (pending e uid m)) = None" for m
    using that d(1) [OF ne_zp [of m]] by (auto simp: paths)
  have other: "disk s1 p = disk s p" if "p \<notin> (\<lambda>m. path (pending e uid m)) ` set ms" for p
    using ingest_disk_other [OF assms(3), of p e uid s] that by (simp add: s1_def)
  have 4: "disk (create_zip e f u s1) p = disk s p"
    if "p \<noteq> zp \<and> p \<notin> (\<lambda>m. path (pending e uid m)) ` set ms" for p
    using that d(1) [of p] other [of p] by (simp add: paths)
  show ?thesis
    unfolding zpu s1_def [symmetric] using 1 r(1) 3 4 d(2) by auto
qed

section \<open>The file name of the archive\<close>

lemma not_alnum_dot_slash: "\<not> isalnum 46" "\<not> isalnum 47"
  by (simp_all add: isalnum_def alnum_ranges_def alnum_ranges_0_def)

lemma sanitized_base_no_dot_slash: "46 \<notin> set (sanitized_base d)" "47 \<notin> set (sanitized_base d)"
  using sanitized_base_chars [of 46 d] sanitized_base_chars [of 47 d] not_alnum_dot_slash by auto

lemma rfind_absent: "c \<notin> set s \<Longrightarrow> rfind s c = - 1"
  by (simp add: rfind_def)

lemma rfind_ext: "46 \<notin> set b \<Longrightarrow> rfind (b @ [46, 109, 112, 52]) 46 = int (length b)"
  by (simp add: rfind_def)

lemma non_dot_before_first: "i < dot \<Longrightarrow> take 1 (drop i p) \<noteq> [46] \<Longrightarrow> non_dot_before p i dot"
  by (subst non_dot_before.simps) simp

lemma ascii_mp4: "ascii ''.mp4'' = [46, 109, 112, 52]"
  by (simp add: ascii_def)

lemma splitext_sanitized_name:
  assumes "sanitized_base d \<noteq> []"
  shows "splitext (sanitized_name d) = (sanitized_base d, ascii ''.mp4'')"
proof -
  define b where "b = sanitized_base d"
  have nd: "46 \<notin> set b" "47 \<notin> set b" using sanitized_base_no_dot_slash by (simp_all add: b_def)
  have ne: "b \<noteq> []" using assms by (simp add: b_def)
  have sep: "rfind (b @ [46, 109, 112, 52]) 47 = - 1"
    using nd(2) by (intro rfind_absent) simp
  have dot: "rfind (b @ [46, 109, 112, 52]) 46 = int (length b)"
    using nd(1) by (rule rfind_ext)
  have "hd b \<noteq> 46" using nd(1) ne by (cases b) auto
  then have "take 1 (drop 0 (b @ [46, 109, 112, 52])) \<noteq> [46]"
    using ne by (cases b) auto
  then have loop: "non_dot_before (b @ [46, 109, 112, 52]) 0 (length b)"
    using ne by (intro non_dot_before_first) simp_all
  have "splitext (b @ [46, 109, 112, 52]) = (b, [46, 109, 112, 52])"
    using loop by (simp add: splitext_def sep dot)
  then show ?thesis by (simp add: sanitized_name_def ascii_mp4 b_def)
qed

lemma splitext_bare_extension: "splitext (ascii ''.mp4'') = (ascii ''.mp4'', [])"
  by (simp add: splitext_def rfind_def ascii_def non_dot_before.simps)

lemma zip_filename_cases:
  "fst (splitext (sanitized_name d)) @ ascii ''.zip'' =
     (if sanitized_base d = [] then ascii ''.mp4.zip'' else sanitized_base d @ ascii ''.zip'')"
proof (cases "sanitized_base d = []")
  case True
  then show ?thesis
    by (simp add: sanitized_name_def splitext_bare_extension) (simp add: ascii_def)
next
  case False
  then show ?thesis by (simp add: splitext_sanitized_name)
qed

section \<open>The example session\<close>

lemma eval_sanitized_a: "sanitized_base (ascii ''a'') = ascii ''a''"
  by (simp add: sanitized_base_def kept_def isalnum_def alnum_ranges_def
      alnum_ranges_0_def strip_def lstrip_def rstrip_def isspace_def replace_def ascii_def)

lemma eval_sanitized_b: "sanitized_base (ascii ''b'') = ascii ''b''"
  by (simp add: sanitized_base_def kept_def isalnum_def alnum_ranges_def
      alnum_ranges_0_def strip_def lstrip_def rstrip_def isspace_def replace_def ascii_def)

lemma eval_sanitized_bangs: "sanitized_base (ascii ''!!!'') = []"
  by (simp add: sanitized_base_def kept_def isalnum_def alnum_ranges_def
      alnum_ranges_0_def strip_def lstrip_def rstrip_def isspace_def replace_def ascii_def)

lemma eval_temp_path:
  "temp_video_path (ascii ''/tmp/video_bot_x'') 7 (ascii ''Q1'') = ascii ''/tmp/video_bot_x/temp_7_Q1.mp4''"
  by (simp add: temp_video_path_def join_def str_int_def digits.simps ascii_def)

lemma ex_env_simps: "TEMP_DIR ex_env = ascii ''/tmp/video_bot_x''" "remote_file ex_env fid = [1, 2, 3]"
  by (simp_all add: ex_env_def)

lemma ex_state_simps:
  "videos ex_state = None" "disk ex_state = Map.empty" "sent ex_state = []" "collection ex_state = []"
  by (simp_all add: ex_state_def collection_def)

lemma ex_accepted: "c \<noteq> [] \<Longrightarrow> accepted (ex_message (Some c))"
  by (simp add: accepted_def ex_message_def video_file_def)

lemma ex_pending:
  "pending ex_env 7 (ex_message (Some c)) =
     \<lparr>path = ascii ''/tmp/video_bot_x/temp_7_Q1.mp4'', name = sanitized_name c\<rparr>"
  by (simp add: pending_def ex_message_def video_file_def ex_env_simps eval_temp_path)

text \<open>
  Claim C2 on two messages of user 7 with the captions \<open>a\<close> and \<open>b\<close>: the archive sent is
  named \<open>a.zip\<close> and holds the entries \<open>a.mp4\<close> and \<open>b.mp4\<close>.
\<close>

theorem ingest_then_create_zip_witness:
  "list_all accepted [ex_message (Some (ascii ''a'')), ex_message (Some (ascii ''b''))] \<and>
   distinct (map caption [ex_message (Some (ascii ''a'')), ex_message (Some (ascii ''b''))]) \<and>
   sent (create_zip ex_env no_faults (ex_update None)
           (ingest ex_env 7 [ex_message (Some (ascii ''a'')), ex_message (Some (ascii ''b''))] ex_state)) =
     sent (ingest ex_env 7 [ex_message (Some (ascii ''a'')), ex_message (Some (ascii ''b''))] ex_state) @
       [Document (Archive [(ascii ''a.mp4'', Blob [1, 2, 3]), (ascii ''b.mp4'', Blob [1, 2, 3])])
          zip_caption (ascii ''a.zip'')] \<and>
   videos (create_zip ex_env no_faults (ex_update None)
           (ingest ex_env 7 [ex_message (Some (ascii ''a'')), ex_message (Some (ascii ''b''))] ex_state)) =
     Some [] \<and>
   disk (create_zip ex_env no_faults (ex_update None)
           (ingest ex_env 7 [ex_message (Some (ascii ''a'')), ex_message (Some (ascii ''b''))] ex_state))
     (ascii ''/tmp/video_bot_x/temp_7_Q1.mp4'') = None"
proof -
  define ms where "ms = [ex_message (Some (ascii ''a'')), ex_message (Some (ascii ''b''))]"
  have acc: "\<forall>m\<in>set ms. accepted m" by (simp add: ms_def ex_accepted)
  have dis: "distinct (map caption ms)" by (simp add: ms_def ex_message_def ascii_def)
  have ne: "ms \<noteq> []" by (simp add: ms_def)
  have v0: "videos ex_state = None \<or> videos ex_state = Some []" by (simp add: ex_state_def)
  have uid: "effective_user_id (ex_update None) = 7" by (simp add: ex_update_def)
  have d: "disk (ingest ex_env 7 ms ex_state) (ascii ''/tmp/video_bot_x/temp_7_Q1.mp4'') = Some (Blob [1, 2, 3])"
    by (simp add: ms_def ingest_def handle_video_pending ex_accepted ex_pending ex_env_simps)
  have sn: "sanitized_name (ascii ''a'') = ascii ''a.mp4''" "sanitized_name (ascii ''b'') = ascii ''b.mp4''"
    by (simp_all add: sanitized_name_def eval_sanitized_a eval_sanitized_b) (simp_all add: ascii_def)
  have fn: "fst (splitext (ascii ''a.mp4'')) @ ascii ''.zip'' = ascii ''a.zip''"
    using splitext_sanitized_name [of "ascii ''a''"]
    by (simp add: eval_sanitized_a sn) (simp add: ascii_def)
  have cap: "caption (ex_message c) = c" for c by (simp add: ex_message_def)
  have nf: "open_fault no_faults = None" "send_fault no_faults = None"
    "\<forall>m\<in>set ms. write_fault no_faults (path (pending ex_env 7 m)) = None"
    "remove_fault no_faults p = None" for p
    by (simp_all add: no_faults_def)
  show ?thesis
    using ingest_then_create_zip [OF v0 ne acc dis uid nf(1,2,3)] acc dis
    unfolding ms_def [symmetric]
    by (simp add: list_all_iff nf(4)) (simp add: ms_def ex_pending d [unfolded ms_def] fn sn cap)
qed

text \<open>
  Claim C8 at the caption \<open>!!!\<close>, of which the sanitizer keeps nothing: the record is named
  \<open>.mp4\<close>, \<open>os.path.splitext\<close> takes the leading dot for the start of a hidden file's name
  and removes no extension, and the archive is delivered as \<open>.mp4.zip\<close>, not as \<open>.zip\<close>.
  Whenever the sanitized caption is not empty, the archive is named by it
  (\<open>zip_filename_cases\<close>).
\<close>

theorem create_zip_filename_bare_extension:
  "collection (handle_video ex_env (ex_update (Some (ascii ''!!!''))) ex_state) =
     [\<lparr>path = ascii ''/tmp/video_bot_x/temp_7_Q1.mp4'', name = ascii ''.mp4''\<rparr>] \<and>
   sent (create_zip ex_env no_faults (ex_update None)
           (handle_video ex_env (ex_update (Some (ascii ''!!!''))) ex_state)) =
     sent (handle_video ex_env (ex_update (Some (ascii ''!!!''))) ex_state) @
       [Document (Archive [(ascii ''.mp4'', Blob [1, 2, 3])]) zip_caption (ascii ''.mp4.zip'')]"
proof -
  define s1 where "s1 = handle_video ex_env (ex_update (Some (ascii ''!!!''))) ex_state"
  define vs where "vs = [\<lparr>path = ascii ''/tmp/video_bot_x/temp_7_Q1.mp4'', name = ascii ''.mp4''\<rparr>]"
  define zp where "zp = zip_path_of (TEMP_DIR ex_env) (effective_user_id (ex_update None))"
  have sn: "sanitized_name (ascii ''!!!'') = ascii ''.mp4''"
    by (simp add: sanitized_name_def eval_sanitized_bangs)
  have s1: "s1 = ex_state\<lparr>videos := Some vs,
                   disk := [ascii ''/tmp/video_bot_x/temp_7_Q1.mp4'' \<mapsto> Blob [1, 2, 3]],
                   sent := [Text (saved_text (ascii ''.mp4'') 1)]\<rparr>"
    using handle_video_pending [OF ex_accepted, of "ascii ''!!!''" ex_env 7 ex_state]
    by (simp add: s1_def ex_update_def ex_pending sn vs_def ex_state_simps ex_env_simps)
  have v: "videos s1 = Some vs" by (simp add: s1)
  have ne: "vs \<noteq> []" by (simp add: vs_def)
  have zpe: "zp = ascii ''/tmp/video_bot_x/videos_7.zip''"
    by (simp add: zp_def zip_path_of_def join_def str_int_def digits.simps ascii_def ex_env_def ex_update_def)
  have b: "build_and_send no_faults zp (ascii ''.mp4.zip'') vs s1 =
           (None, s1\<lparr>disk := (disk s1)(zp \<mapsto> Archive (map (\<lambda>v. (name v, the (disk s1 (path v)))) vs)),
                    sent := sent s1 @ [Document (Archive (map (\<lambda>v. (name v, the (disk s1 (path v)))) vs))
                                        zip_caption (ascii ''.mp4.zip'')]\<rparr>)"
    by (rule build_and_send_ok) (simp_all add: no_faults_def vs_def s1 zpe ascii_def)
  have fname: "fst (splitext (name (hd vs))) @ ascii ''.zip'' = ascii ''.mp4.zip''"
    by (simp add: vs_def splitext_bare_extension) (simp add: ascii_def)
  have "sent (create_zip ex_env no_faults (ex_update None) s1) =
        sent s1 @ [Document (Archive (map (\<lambda>v. (name v, the (disk s1 (path v)))) vs))
                     zip_caption (ascii ''.mp4.zip'')]"
    using create_zip_nonempty(3) [OF v ne zp_def refl, of no_faults] by (simp add: fname b)
  moreover have "map (\<lambda>v. (name v, the (disk s1 (path v)))) vs = [(ascii ''.mp4'', Blob [1, 2, 3])]"
    by (simp add: vs_def s1)
  ultimately show ?thesis
    unfolding s1_def [symmetric] by (simp add: collection_def v vs_def)
qed

text \<open>Claim C6 on the fresh session, whose collection was never initialized.\<close>

theorem create_zip_empty_witness:
  "videos ex_state = None \<and>
   sent (create_zip ex_env no_faults (ex_update None) ex_state) = [Text no_videos_text] \<and>
   disk (create_zip ex_env no_faults (ex_update None) ex_state) = Map.empty \<and>
   videos (create_zip ex_env no_faults (ex_update None) ex_state) = None"
  using create_zip_empty [of ex_state ex_env no_faults "ex_update None"]
  by (simp add: ex_state_def)

text \<open>
  Claim C7 on the fresh session: an update with an empty caption, and one with the caption
  \<open>My Trip! (2024)\<close>.
\<close>

theorem handle_video_contract_witness:
  "video_file (message (ex_update (Some []))) \<noteq> None \<and>
   caption (message (ex_update (Some []))) = Some [] \<and>
   sent (handle_video ex_env (ex_update (Some [])) ex_state) = [Text no_caption_text] \<and>
   collection (handle_video ex_env (ex_update (Some [])) ex_state) = [] \<and>
   disk (handle_video ex_env (ex_update (Some [])) ex_state) = Map.empty \<and>
   collection (handle_video ex_env (ex_update (Some (ascii ''My Trip! (2024)''))) ex_state) =
     [\<lparr>path = ascii ''/tmp/video_bot_x/temp_7_Q1.mp4'', name = ascii ''My_Trip_2024.mp4''\<rparr>]"
proof -
  have 1: "video_file (message (ex_update c)) = Some \<lparr>file_id = ascii ''F1'', file_unique_id = ascii ''Q1''\<rparr>" for c
    by (simp add: ex_update_def ex_message_def video_file_def)
  have 2: "caption (message (ex_update c)) = c" for c
    by (simp add: ex_update_def ex_message_def)
  have 3: "collection ex_state = []" "disk ex_state = Map.empty" "sent ex_state = []"
    by (simp_all add: ex_state_def collection_def)
  have 4: "sanitized_name (ascii ''My Trip! (2024)'') = ascii ''My_Trip_2024.mp4''"
    by (simp add: sanitized_name_def eval_my_trip) (simp add: ascii_def)
  have 5: "TEMP_DIR ex_env = ascii ''/tmp/video_bot_x''" "effective_user_id (ex_update c) = 7" for c
    by (simp_all add: ex_env_def ex_update_def)
  show ?thesis
    using handle_video_contract [of "ex_update (Some [])" ex_env ex_state]
          handle_video_contract [of "ex_update (Some (ascii ''My Trip! (2024)''))" ex_env ex_state
            "\<lparr>file_id = ascii ''F1'', file_unique_id = ascii ''Q1''\<rparr>" "ascii ''My Trip! (2024)''"]
    by (simp add: 1 2 3 4 5 eval_temp_path)
qed

section \<open>The session after a restart, and the remaining examples\<close>

lemma eval_other_temp_path:
  "temp_video_path (ascii ''/tmp/video_bot_x'') 7 (ascii ''Q2'') = ascii ''/tmp/video_bot_x/temp_7_Q2.mp4''"
  by (simp add: temp_video_path_def join_def str_int_def digits.simps ascii_def)

lemma ex_other_accepted: "c \<noteq> [] \<Longrightarrow> accepted (ex_other_message (Some c))"
  by (simp add: accepted_def ex_other_message_def video_file_def)

lemma ex_other_pending:
  "pending ex_env 7 (ex_other_message (Some c)) =
     \<lparr>path = ascii ''/tmp/video_bot_x/temp_7_Q2.mp4'', name = sanitized_name c\<rparr>"
  by (simp add: pending_def ex_other_message_def video_file_def ex_env_simps eval_other_temp_path)

lemma eval_sanitized_names:
  "sanitized_name (ascii ''a'') = ascii ''a.mp4''" "sanitized_name (ascii ''b'') = ascii ''b.mp4''"
  by (simp_all add: sanitized_name_def eval_sanitized_a eval_sanitized_b) (simp_all add: ascii_def)

lemma ex_first_video:
  "handle_video ex_env (ex_update (Some (ascii ''a''))) ex_state =
     ex_state\<lparr>videos := Some [\<lparr>path = ascii ''/tmp/video_bot_x/temp_7_Q1.mp4'', name = ascii ''a.mp4''\<rparr>],
              disk := [ascii ''/tmp/video_bot_x/temp_7_Q1.mp4'' \<mapsto> Blob [1, 2, 3]],
              sent := [Text (saved_text (ascii ''a.mp4'') 1)]\<rparr>"
  using handle_video_pending [OF ex_accepted, of "ascii ''a''" ex_env 7 ex_state]
  by (simp add: ex_update_def ex_pending eval_sanitized_names ex_state_simps ex_env_simps)

lemma ex_restarted_facts:
  "videos ex_restarted = Some [\<lparr>path = ascii ''/tmp/video_bot_x/temp_7_Q2.mp4'', name = ascii ''b.mp4''\<rparr>]"
  "disk ex_restarted (ascii ''/tmp/video_bot_x/temp_7_Q1.mp4'') = Some (Blob [1, 2, 3])"
  "disk ex_restarted (ascii ''/tmp/video_bot_x/temp_7_Q2.mp4'') = Some (Blob [1, 2, 3])"
proof -
  define s2 where "s2 = start (ex_update None) (handle_video ex_env (ex_update (Some (ascii ''a''))) ex_state)"
  have s2: "collection s2 = []" "disk s2 = [ascii ''/tmp/video_bot_x/temp_7_Q1.mp4'' \<mapsto> Blob [1, 2, 3]]"
    by (simp_all add: s2_def start_def reply_text_def ex_first_video collection_def ex_state_simps)
  have r: "ex_restarted = handle_video ex_env \<lparr>message = ex_other_message (Some (ascii ''b'')), effective_user_id = 7\<rparr> s2"
    by (simp add: ex_restarted_def s2_def ex_other_update_def)
  have ne: "ascii ''/tmp/video_bot_x/temp_7_Q1.mp4'' \<noteq> ascii ''/tmp/video_bot_x/temp_7_Q2.mp4''"
    by (simp add: ascii_def)
  show "videos ex_restarted = Some [\<lparr>path = ascii ''/tmp/video_bot_x/temp_7_Q2.mp4'', name = ascii ''b.mp4''\<rparr>]"
    using handle_video_pending [OF ex_other_accepted, of "ascii ''b''" ex_env 7 s2]
    by (simp add: r ex_other_pending eval_sanitized_names s2)
  show "disk ex_restarted (ascii ''/tmp/video_bot_x/temp_7_Q1.mp4'') = Some (Blob [1, 2, 3])"
    using handle_video_pending [OF ex_other_accepted, of "ascii ''b''" ex_env 7 s2] ne
    by (simp add: r ex_other_pending s2)
  show "disk ex_restarted (ascii ''/tmp/video_bot_x/temp_7_Q2.mp4'') = Some (Blob [1, 2, 3])"
    using handle_video_pending [OF ex_other_accepted, of "ascii ''b''" ex_env 7 s2]
    by (simp add: r ex_other_pending s2 ex_env_simps)
qed

lemma ex_restarted_empty_before:
  "videos (start (ex_update None) (handle_video ex_env (ex_update (Some (ascii ''a''))) ex_state)) = Some []"
  "ex_restarted =
     ingest ex_env 7 [ex_other_message (Some (ascii ''b''))]
       (start (ex_update None) (handle_video ex_env (ex_update (Some (ascii ''a''))) ex_state))"
  by (simp_all add: start_def ex_restarted_def ingest_def ex_other_update_def)

lemma ex_zip_path:
  "zip_path_of (TEMP_DIR ex_env) (effective_user_id (ex_update c)) = ascii ''/tmp/video_bot_x/videos_7.zip''"
  by (simp add: zip_path_of_def join_def str_int_def digits.simps ascii_def ex_env_def ex_update_def)

lemma ex_timeout_simps:
  "open_fault ex_timeout = None" "send_fault ex_timeout = Some (Raised (ascii ''Timed out''))"
  "write_fault ex_timeout p = None" "remove_fault ex_timeout p = None"
  "open_fault no_faults = None" "send_fault no_faults = None"
  "write_fault no_faults p = None" "remove_fault no_faults p = None"
  by (simp_all add: ex_timeout_def no_faults_def)

lemma ex_restarted_raises:
  "fst (build_and_send ex_timeout (zip_path_of (TEMP_DIR ex_env) (effective_user_id (ex_update None)))
          fname [\<lparr>path = ascii ''/tmp/video_bot_x/temp_7_Q2.mp4'', name = ascii ''b.mp4''\<rparr>] ex_restarted) =
     Some (Raised (ascii ''Timed out''))"
  by (rule build_and_send_send_fault)
     (simp_all add: ex_timeout_simps ex_restarted_facts ex_zip_path, simp add: ascii_def)

text \<open>
  Claim C1 on the session of user 7 after one video with the caption \<open>a\<close>, when
  \<open>reply_document\<close> raises an exception with the text \<open>Timed out\<close> and no removal fails:
  the error reply, the empty collection, the source and the archive gone from disk, and
  the same disk as after the build with no fault.
\<close>

theorem create_zip_exception_witness:
  "videos (handle_video ex_env (ex_update (Some (ascii ''a''))) ex_state) =
     Some [\<lparr>path = ascii ''/tmp/video_bot_x/temp_7_Q1.mp4'', name = ascii ''a.mp4''\<rparr>] \<and>
   sent (create_zip ex_env ex_timeout (ex_update None)
          (handle_video ex_env (ex_update (Some (ascii ''a''))) ex_state)) =
     sent (handle_video ex_env (ex_update (Some (ascii ''a''))) ex_state) @
       [Text ([9888, 65039] @ ascii '' Error creating zip file: Timed out'')] \<and>
   videos (create_zip ex_env ex_timeout (ex_update None)
          (handle_video ex_env (ex_update (Some (ascii ''a''))) ex_state)) = Some [] \<and>
   disk (create_zip ex_env ex_timeout (ex_update None)
          (handle_video ex_env (ex_update (Some (ascii ''a''))) ex_state))
     (ascii ''/tmp/video_bot_x/temp_7_Q1.mp4'') = None \<and>
   disk (create_zip ex_env ex_timeout (ex_update None)
          (handle_video ex_env (ex_update (Some (ascii ''a''))) ex_state))
     (ascii ''/tmp/video_bot_x/videos_7.zip'') = None \<and>
   disk (create_zip ex_env no_faults (ex_update None)
          (handle_video ex_env (ex_update (Some (ascii ''a''))) ex_state)) =
   disk (create_zip ex_env ex_timeout (ex_update None)
          (handle_video ex_env (ex_update (Some (ascii ''a''))) ex_state))"
proof -
  define s1 where "s1 = handle_video ex_env (ex_update (Some (ascii ''a''))) ex_state"
  define vs where "vs = [\<lparr>path = ascii ''/tmp/video_bot_x/temp_7_Q1.mp4'', name = ascii ''a.mp4''\<rparr>]"
  have v: "videos s1 = Some vs" by (simp add: s1_def vs_def ex_first_video)
  have ne: "vs \<noteq> []" by (simp add: vs_def)
  have src: "\<forall>v\<in>set vs. disk s1 (path v) \<noteq> None \<and>
               path v \<noteq> zip_path_of (TEMP_DIR ex_env) (effective_user_id (ex_update None)) \<and>
               write_fault f (path v) = None" if "\<And>p. write_fault f p = None" for f
    using that by (simp add: vs_def s1_def ex_first_video ex_zip_path) (simp add: ascii_def)
  have b: "fst (build_and_send ex_timeout (zip_path_of (TEMP_DIR ex_env) (effective_user_id (ex_update None)))
                 (fst (splitext (name (hd vs))) @ ascii ''.zip'') vs s1) = Some (Raised (ascii ''Timed out''))"
    by (rule build_and_send_send_fault [OF _ _ src]) (simp_all add: ex_timeout_simps)
  have b': "fst (build_and_send no_faults (zip_path_of (TEMP_DIR ex_env) (effective_user_id (ex_update None)))
                 (fst (splitext (name (hd vs))) @ ascii ''.zip'') vs s1) = None"
    by (subst build_and_send_ok [OF _ _ src]) (simp_all add: ex_timeout_simps)
  have rf: "remove_fault no_faults = remove_fault ex_timeout"
    by (simp add: ex_timeout_def)
  show ?thesis
    using create_zip_exception [OF v ne b, where f' = no_faults] v b' rf
    unfolding s1_def [symmetric]
    by (simp add: ex_timeout_simps ex_zip_path vs_def) (simp add: ascii_def)
qed

text \<open>
  Claim C1 as stated fails. User 7 sends a video, then \<open>/start\<close>, then another video, and
  asks for the archive while the delivery times out. The exception is caught and
  reported and the collection emptied, but the temporary file of the first video, which
  \<open>start\<close> dropped from the collection without removing it, is still on disk.
\<close>

theorem create_zip_exception_leaves_dropped_file:
  "disk (handle_video ex_env (ex_update (Some (ascii ''a''))) ex_state)
     (temp_video_path (TEMP_DIR ex_env) 7 (ascii ''Q1'')) = Some (Blob [1, 2, 3]) \<and>
   sent (create_zip ex_env ex_timeout (ex_update None) ex_restarted) =
     sent ex_restarted @ [Text ([9888, 65039] @ ascii '' Error creating zip file: Timed out'')] \<and>
   videos (create_zip ex_env ex_timeout (ex_update None) ex_restarted) = Some [] \<and>
   disk (create_zip ex_env ex_timeout (ex_update None) ex_restarted)
     (temp_video_path (TEMP_DIR ex_env) 7 (ascii ''Q1'')) = Some (Blob [1, 2, 3])"
proof -
  note r = create_zip_nonempty [OF ex_restarted_facts(1) _ refl refl,
             where e = ex_env and u = "ex_update None" and f = ex_timeout]
  have p1: "temp_video_path (TEMP_DIR ex_env) 7 (ascii ''Q1'') = ascii ''/tmp/video_bot_x/temp_7_Q1.mp4''"
    by (simp add: ex_env_simps eval_temp_path)
  have ne: "ascii ''/tmp/video_bot_x/temp_7_Q1.mp4'' \<noteq> ascii ''/tmp/video_bot_x/videos_7.zip''"
    "ascii ''/tmp/video_bot_x/temp_7_Q1.mp4'' \<noteq> ascii ''/tmp/video_bot_x/temp_7_Q2.mp4''"
    by (simp_all add: ascii_def)
  have d: "disk (create_zip ex_env ex_timeout (ex_update None) ex_restarted)
             (ascii ''/tmp/video_bot_x/temp_7_Q1.mp4'') = Some (Blob [1, 2, 3])"
    using create_zip_disk(1) [OF ex_restarted_facts(1), where p = "ascii ''/tmp/video_bot_x/temp_7_Q1.mp4''"
            and e = ex_env and u = "ex_update None" and f = ex_timeout] ne
    by (simp add: ex_zip_path ex_restarted_facts)
  show ?thesis
    using r(1,3) d ex_restarted_raises
    by (simp add: p1 ex_first_video zip_error_text_def) (simp add: ascii_def)
qed

text \<open>
  Claim C2 as stated fails. After a video and \<open>/start\<close> the collection of user 7 is empty;
  the user then sends \<open>N = 1\<close> video and asks for the archive, and nothing fails. The
  archive has its one entry and the collection is emptied, but a temporary file of the
  session, the one of the video sent before \<open>/start\<close>, remains on disk. And for \<open>N = 0\<close>,
  on the fresh session, \<open>create_zip\<close> sends the warning and no archive at all.
\<close>

theorem create_zip_leaves_dropped_file:
  "videos (start (ex_update None) (handle_video ex_env (ex_update (Some (ascii ''a''))) ex_state)) = Some [] \<and>
   ex_restarted =
     ingest ex_env 7 [ex_other_message (Some (ascii ''b''))]
       (start (ex_update None) (handle_video ex_env (ex_update (Some (ascii ''a''))) ex_state)) \<and>
   sent (create_zip ex_env no_faults (ex_update None) ex_restarted) =
     sent ex_restarted @
       [Document (Archive [(ascii ''b.mp4'', Blob [1, 2, 3])]) zip_caption (ascii ''b.zip'')] \<and>
   videos (create_zip ex_env no_faults (ex_update None) ex_restarted) = Some [] \<and>
   disk (create_zip ex_env no_faults (ex_update None) ex_restarted)
     (temp_video_path (TEMP_DIR ex_env) 7 (ascii ''Q1'')) = Some (Blob [1, 2, 3]) \<and>
   ingest ex_env 7 [] ex_state = ex_state \<and>
   sent (create_zip ex_env no_faults (ex_update None) (ingest ex_env 7 [] ex_state)) =
     [Text no_videos_text]"
proof -
  define vs where "vs = [\<lparr>path = ascii ''/tmp/video_bot_x/temp_7_Q2.mp4'', name = ascii ''b.mp4''\<rparr>]"
  have v: "videos ex_restarted = Some vs" by (simp add: vs_def ex_restarted_facts)
  have ne0: "vs \<noteq> []" by (simp add: vs_def)
  note r = create_zip_nonempty [OF v ne0 refl refl,
             where e = ex_env and u = "ex_update None" and f = no_faults]
  have p1: "temp_video_path (TEMP_DIR ex_env) 7 (ascii ''Q1'') = ascii ''/tmp/video_bot_x/temp_7_Q1.mp4''"
    by (simp add: ex_env_simps eval_temp_path)
  have ne: "ascii ''/tmp/video_bot_x/temp_7_Q1.mp4'' \<noteq> ascii ''/tmp/video_bot_x/videos_7.zip''"
    "ascii ''/tmp/video_bot_x/temp_7_Q1.mp4'' \<noteq> ascii ''/tmp/video_bot_x/temp_7_Q2.mp4''"
    "ascii ''/tmp/video_bot_x/temp_7_Q2.mp4'' \<noteq> ascii ''/tmp/video_bot_x/videos_7.zip''"
    by (simp_all add: ascii_def)
  have d: "disk (create_zip ex_env no_faults (ex_update None) ex_restarted)
             (ascii ''/tmp/video_bot_x/temp_7_Q1.mp4'') = Some (Blob [1, 2, 3])"
    using create_zip_disk(1) [OF v ne0, where p = "ascii ''/tmp/video_bot_x/temp_7_Q1.mp4''"
            and e = ex_env and u = "ex_update None" and f = no_faults] ne
    by (simp add: ex_zip_path ex_restarted_facts vs_def)
  have fn: "fst (splitext (name (hd vs))) @ ascii ''.zip'' = ascii ''b.zip''"
    using splitext_sanitized_name [of "ascii ''b''"]
    by (simp add: vs_def eval_sanitized_b eval_sanitized_names) (simp add: ascii_def)
  have b: "build_and_send no_faults (zip_path_of (TEMP_DIR ex_env) (effective_user_id (ex_update None)))
             (ascii ''b.zip'') vs ex_restarted =
           (None, ex_restarted\<lparr>disk := (disk ex_restarted)(zip_path_of (TEMP_DIR ex_env) (effective_user_id (ex_update None))
                      \<mapsto> Archive (map (\<lambda>v. (name v, the (disk ex_restarted (path v)))) vs)),
                    sent := sent ex_restarted @ [Document (Archive (map (\<lambda>v. (name v, the (disk ex_restarted (path v)))) vs))
                                        zip_caption (ascii ''b.zip'')]\<rparr>)"
    using ne by (intro build_and_send_ok) (simp_all add: ex_timeout_simps vs_def ex_restarted_facts ex_zip_path)
  have s: "sent (create_zip ex_env no_faults (ex_update None) ex_restarted) =
     sent ex_restarted @
       [Document (Archive [(ascii ''b.mp4'', Blob [1, 2, 3])]) zip_caption (ascii ''b.zip'')]"
    using r(3) by (simp add: fn b) (simp add: vs_def ex_restarted_facts)
  have z: "ingest ex_env 7 [] ex_state = ex_state \<and>
   sent (create_zip ex_env no_faults (ex_update None) (ingest ex_env 7 [] ex_state)) =
     [Text no_videos_text]"
    by (simp add: ingest_def create_zip_def ex_state_def reply_text_def)
  show ?thesis
    unfolding p1
    by (intro conjI s r(1) d z [THEN conjunct1] z [THEN conjunct2] ex_restarted_empty_before)
qed

text \<open>Claim C9 on the fresh session, with no caption and with the caption \<open>a\<close>.\<close>

theorem handle_video_uninitialized_witness:
  "\<not> accepted (message (ex_update None)) \<and>
   videos (handle_video ex_env (ex_update None) (ex_state\<lparr>videos := None\<rparr>)) = Some [] \<and>
   sent (handle_video ex_env (ex_update None) (ex_state\<lparr>videos := None\<rparr>)) = [Text no_caption_text] \<and>
   accepted (message (ex_update (Some (ascii ''a'')))) \<and>
   videos (handle_video ex_env (ex_update (Some (ascii ''a''))) (ex_state\<lparr>videos := None\<rparr>)) =
     Some [\<lparr>path = ascii ''/tmp/video_bot_x/temp_7_Q1.mp4'', name = ascii ''a.mp4''\<rparr>] \<and>
   sent (handle_video ex_env (ex_update (Some (ascii ''a''))) (ex_state\<lparr>videos := None\<rparr>)) =
     [Text (saved_text (ascii ''a.mp4'') 1)]"
proof -
  have m: "message (ex_update c) = ex_message c" "effective_user_id (ex_update c) = 7" for c
    by (simp_all add: ex_update_def)
  have a: "\<not> accepted (ex_message None)" "accepted (ex_message (Some (ascii ''a'')))"
    "video_file (ex_message None) \<noteq> None" "caption (ex_message c) = c" for c
    by (simp_all add: accepted_def ex_message_def video_file_def)
  show ?thesis
    using handle_video_uninitialized [of ex_env "ex_update None" ex_state, THEN conjunct2]
          handle_video_uninitialized [of ex_env "ex_update (Some (ascii ''a''))" ex_state, THEN conjunct2]
    by (simp add: m a ex_pending eval_sanitized_names ex_state_simps)
qed

lemma eval_repr:
  "repr (ascii ''/tmp/a.mp4'') = [39] @ ascii ''/tmp/a.mp4'' @ [39]"
  "repr (ascii ''it'' @ [39] @ ascii ''s'') = [34] @ ascii ''it'' @ [39] @ ascii ''s'' @ [34]"
  "repr [92, 10, 233, 160] = [39, 92, 92, 92, 110, 233, 92, 120, 97, 48, 39]"
  by (simp_all add: repr_def repr_char_def hex_fixed_def hex_digit_def ascii_def
      isprintable_def printable_ranges_def printable_ranges_0_def upt_rec)

end
